theory Spec2Isabelle
  imports Main "HOL-Library.AList"
begin

section \<open>Python string helpers used by the Manager\<close>

text \<open>
  \<^verbatim>\<open>str.find\<close>: the index of the first occurrence of \<open>sep\<close> in a string.  The Manager
  only ever searches for the non-empty literals \<open>'//'\<close> and \<open>':'\<close>.
\<close>

fun find_sub :: "string \<Rightarrow> string \<Rightarrow> nat option" where
  "find_sub sep [] = (if sep = [] then Some 0 else None)"
| "find_sub sep (c # cs) =
     (if take (length sep) (c # cs) = sep then Some 0
      else map_option Suc (find_sub sep cs))"

text \<open>
  \<^verbatim>\<open>s.partition(sep)\<close> splits at the first occurrence and gives \<open>(s, '', '')\<close> when
  there is none; \<^verbatim>\<open>s.rpartition(sep)\<close> splits at the last occurrence and gives
  \<open>('', '', s)\<close> when there is none.
\<close>

definition str_partition :: "string \<Rightarrow> string \<Rightarrow> string \<times> string \<times> string" where
  "str_partition s sep =
     (case find_sub sep s of
        None \<Rightarrow> (s, [], [])
      | Some i \<Rightarrow> (take i s, sep, drop (i + length sep) s))"

definition str_rpartition :: "string \<Rightarrow> string \<Rightarrow> string \<times> string \<times> string" where
  "str_rpartition s sep =
     (case find_sub (rev sep) (rev s) of
        None \<Rightarrow> ([], [], s)
      | Some i \<Rightarrow> (take (length s - i - length sep) s, sep, drop (length s - i) s))"

text \<open>\<^verbatim>\<open>'%d' % n\<close>: the decimal rendering of a Python integer.\<close>

definition digit_char :: "nat \<Rightarrow> char" where
  "digit_char d = char_of (48 + d)"

fun digits :: "nat \<Rightarrow> string" where
  "digits n = (if n < 10 then [digit_char n] else digits (n div 10) @ [digit_char (n mod 10)])"

declare digits.simps [simp del]

definition fmt_d :: "int \<Rightarrow> string" where
  "fmt_d i = (if i < 0 then CHR ''-'' # digits (nat (- i)) else digits (nat i))"

section \<open>Errors\<close>

text \<open>
  The exceptions the Manager's methods can raise.  \<open>KeyError\<close> carries its argument: the
  missing key for a failed dictionary lookup, the message for the explicit
  \<^verbatim>\<open>raise KeyError("... already exists")\<close>.  \<open>RemoteError\<close> is any failure surfaced by an
  RPC client, \<open>LaunchError\<close> a failure of the process spawner.  \<open>NoObject\<close> is not a Python
  behaviour: it marks a reference with no object in the store of the model, which a
  well-formed store excludes.
\<close>

datatype exn =
    KeyError string
  | TypeError string
  | RemoteError string
  | LaunchError string
  | NoObject

section \<open>Data model\<close>

type_synonym ref = nat

text \<open>Python dictionaries keep insertion order: association lists with \<open>AList.update\<close>.\<close>

type_synonym ('k, 'v) dict = "('k \<times> 'v) list"

text \<open>
  Modelled from the spec: the RPC module is not part of the sources.  An \<open>RPCClient\<close> is a
  handle binding a name to an address; building one contacts nobody.  A remote call names
  the handle, the method, the positional and the keyword arguments.
\<close>

datatype RPCClient = RPCClient string string

type_synonym kwargs = "(string \<times> string) list"

datatype rpc_call = Call RPCClient string "string list" kwargs

text \<open>
  Modelled from the spec: a process started by the Process Launcher reports the name and
  the address it is bound to.
\<close>

record process =
  proc_name :: string
  proc_addr :: string

text \<open>The bookkeeping classes \<open>_Host\<close>, \<open>_NodeGroup\<close> and \<open>_Node\<close>.\<close>

record Host =
  h_rpc_address :: string
  h_rpc_name :: string
  h_client :: RPCClient
  h_nodegroups :: "(string, ref) dict"
  h_rpc_hostname :: string

record NodeGroup =
  ng_host :: ref
  ng_rpc_address :: string
  ng_rpc_name :: string
  ng_client :: RPCClient
  ng_nodes :: "(string, ref) dict"

record Node =
  n_nodegroup :: ref
  n_name :: string
  n_classname :: string
  n_outputs :: "string list"

text \<open>
  The state: the attributes of the Manager (a leading underscore is written \<open>priv_\<close>),
  the store of the objects they refer to (\<open>_Host\<close>, \<open>_NodeGroup\<close> and \<open>_Node\<close> instances are
  shared between the dictionaries, so the dictionaries hold references), and the trace of
  what the Manager did to the outside: the remote calls issued, the processes spawned and
  stopped, and whether its own RPC server was closed.
\<close>

record state =
  hosts :: "(string, ref) dict"
  nodegroups :: "(string, ref) dict"
  nodes :: "(string, ref) dict"
  priv_default_host :: "process option"
  priv_next_nodegroup_name :: int
  priv_next_node_name :: int
  priv_addr :: string
  Host_objs :: "Host list"
  NodeGroup_objs :: "NodeGroup list"
  Node_objs :: "Node list"
  rpc_log :: "rpc_call list"
  spawned :: "process list"
  stopped :: "process list"
  server_closed :: bool

definition deref :: "'a list \<Rightarrow> ref \<Rightarrow> 'a option" where
  "deref objs r = (if r < length objs then Some (objs ! r) else None)"

text \<open>
  The outside world, a parameter of every operation that reaches it.  Each answer may
  depend on the calls issued so far.
  Modelled from the spec: a Host agent answers \<open>create_nodegroup(name, address)\<close> with a
  pair \<open>(name, address)\<close> or fails; every other remote method answers with a value opaque
  to the Manager or fails; the Process Launcher answers with the started process or fails.
\<close>

record env =
  host_reply :: "rpc_call list \<Rightarrow> rpc_call \<Rightarrow> string + (string \<times> string)"
  reply :: "rpc_call list \<Rightarrow> rpc_call \<Rightarrow> string + string"
  launch :: "process list \<Rightarrow> string \<Rightarrow> string \<Rightarrow> string + process"

definition rpc :: "env \<Rightarrow> state \<Rightarrow> rpc_call \<Rightarrow> (exn + string) \<times> state" where
  "rpc e s c =
     (case reply e (rpc_log s) c of
        Inl msg \<Rightarrow> (Inl (RemoteError msg), s\<lparr>rpc_log := rpc_log s @ [c]\<rparr>)
      | Inr v \<Rightarrow> (Inr v, s\<lparr>rpc_log := rpc_log s @ [c]\<rparr>))"

section \<open>The Manager\<close>

definition init :: "string \<Rightarrow> state" where
  "init addr =
     \<lparr>hosts = [], nodegroups = [], nodes = [], priv_default_host = None,
      priv_next_nodegroup_name = 0, priv_next_node_name = 0, priv_addr = addr,
      Host_objs = [], NodeGroup_objs = [], Node_objs = [], rpc_log = [],
      spawned = [], stopped = [], server_closed = False\<rparr>"

definition new_Host :: "string \<Rightarrow> string \<Rightarrow> Host" where
  "new_Host name addr =
     \<lparr>h_rpc_address = addr, h_rpc_name = name, h_client = RPCClient name addr,
      h_nodegroups = [],
      h_rpc_hostname = fst (str_rpartition (snd (snd (str_partition addr ''//''))) '':'')\<rparr>"

definition new_NodeGroup :: "ref \<Rightarrow> string \<Rightarrow> string \<Rightarrow> NodeGroup" where
  "new_NodeGroup host name addr =
     \<lparr>ng_host = host, ng_rpc_address = addr, ng_rpc_name = name,
      ng_client = RPCClient name addr, ng_nodes = []\<rparr>"

definition new_Node :: "ref \<Rightarrow> string \<Rightarrow> string \<Rightarrow> Node" where
  "new_Node nodegroup name classname =
     \<lparr>n_nodegroup = nodegroup, n_name = name, n_classname = classname, n_outputs = []\<rparr>"

definition connect_host :: "state \<Rightarrow> string \<Rightarrow> string \<Rightarrow> state" where
  "connect_host s name addr =
     (if map_of (hosts s) name = None
      then s\<lparr>Host_objs := Host_objs s @ [new_Host name addr],
             hosts := AList.update name (length (Host_objs s)) (hosts s)\<rparr>
      else s)"

text \<open>
  \<open>disconnect_host\<close>: the loop header \<^verbatim>\<open>for ng in self.hosts[name]\<close> looks the Host up
  (KeyError when absent) and then iterates the \<open>_Host\<close> object itself.  \<open>_Host\<close> defines
  neither \<open>__iter__\<close> nor \<open>__getitem__\<close>, so the iteration raises TypeError before the loop
  body and before \<^verbatim>\<open>self.hosts.pop(name)\<close>: neither is ever run.
\<close>

definition disconnect_host :: "state \<Rightarrow> string \<Rightarrow> (exn + unit) \<times> state" where
  "disconnect_host s name =
     (case map_of (hosts s) name of
        None \<Rightarrow> (Inl (KeyError name), s)
      | Some hr \<Rightarrow> (Inl (TypeError ''_Host object is not iterable''), s))"

definition default_host :: "env \<Rightarrow> state \<Rightarrow> (exn + string \<times> string) \<times> state" where
  "default_host e s =
     (case priv_default_host s of
        None \<Rightarrow>
          (let addr = fst (str_rpartition (priv_addr s) '':'') @ '':*'' in
           case launch e (spawned s) ''default-host'' addr of
             Inl msg \<Rightarrow> (Inl (LaunchError msg), s)
           | Inr proc \<Rightarrow>
               (let s1 = s\<lparr>spawned := spawned s @ [proc], priv_default_host := Some proc\<rparr>;
                    s2 = connect_host s1 (proc_name proc) (proc_addr proc)
                in (Inr (proc_name proc, proc_addr proc), s2)))
      | Some proc \<Rightarrow> (Inr (proc_name proc, proc_addr proc), s))"

definition close_host :: "env \<Rightarrow> state \<Rightarrow> string \<Rightarrow> (exn + unit) \<times> state" where
  "close_host e s name =
     (case map_of (hosts s) name of
        None \<Rightarrow> (Inl (KeyError name), s)
      | Some hr \<Rightarrow>
          (case deref (Host_objs s) hr of
             None \<Rightarrow> (Inl NoObject, s)
           | Some h \<Rightarrow>
               (case rpc e s (Call (h_client h) ''close'' [] []) of
                  (Inl x, s') \<Rightarrow> (Inl x, s')
                | (Inr v, s') \<Rightarrow> (Inr (), s'))))"

definition close :: "state \<Rightarrow> state" where
  "close s =
     (case priv_default_host s of
        None \<Rightarrow> s\<lparr>server_closed := True\<rparr>
      | Some proc \<Rightarrow> s\<lparr>stopped := stopped s @ [proc], server_closed := True\<rparr>)"

definition list_hosts :: "state \<Rightarrow> string list" where
  "list_hosts s = map fst (hosts s)"

definition create_nodegroup ::
  "env \<Rightarrow> state \<Rightarrow> string \<Rightarrow> string \<Rightarrow> (exn + string \<times> string) \<times> state" where
  "create_nodegroup e s host name =
     (if map_of (nodegroups s) name \<noteq> None
      then (Inl (KeyError (''Nodegroup named '' @ name @ '' already exists'')), s)
      else
        case map_of (hosts s) host of
          None \<Rightarrow> (Inl (KeyError host), s)
        | Some hr \<Rightarrow>
            (case deref (Host_objs s) hr of
               None \<Rightarrow> (Inl NoObject, s)
             | Some h \<Rightarrow>
                 (let addr = ''tcp://'' @ h_rpc_hostname h @ '':*'';
                      c = Call (h_client h) ''create_nodegroup'' [name, addr] []
                  in case host_reply e (rpc_log s) c of
                       Inl msg \<Rightarrow> (Inl (RemoteError msg), s\<lparr>rpc_log := rpc_log s @ [c]\<rparr>)
                     | Inr (uu, addr') \<Rightarrow>
                         (let ng = new_NodeGroup hr name addr';
                              ngr = length (NodeGroup_objs s)
                          in (Inr (name, addr'),
                              s\<lparr>rpc_log := rpc_log s @ [c],
                                NodeGroup_objs := NodeGroup_objs s @ [ng],
                                Host_objs := (Host_objs s)
                                  [hr := h\<lparr>h_nodegroups :=
                                            AList.update (ng_rpc_name ng) ngr (h_nodegroups h)\<rparr>],
                                nodegroups := AList.update name ngr (nodegroups s)\<rparr>)))))"

definition list_nodegroups :: "state \<Rightarrow> string option \<Rightarrow> exn + string list" where
  "list_nodegroups s host =
     (case host of
        None \<Rightarrow> Inr (map fst (nodegroups s))
      | Some hn \<Rightarrow>
          (case map_of (hosts s) hn of
             None \<Rightarrow> Inl (KeyError hn)
           | Some hr \<Rightarrow>
               (case deref (Host_objs s) hr of
                  None \<Rightarrow> Inl NoObject
                | Some h \<Rightarrow> Inr (map fst (h_nodegroups h)))))"

definition create_node ::
  "env \<Rightarrow> state \<Rightarrow> string \<Rightarrow> string \<Rightarrow> string \<Rightarrow> kwargs \<Rightarrow> (exn + unit) \<times> state" where
  "create_node e s nodegroup name classname kw =
     (if map_of (nodes s) name \<noteq> None
      then (Inl (KeyError (''Node named '' @ name @ '' already exists'')), s)
      else
        case map_of (nodegroups s) nodegroup of
          None \<Rightarrow> (Inl (KeyError nodegroup), s)
        | Some ngr \<Rightarrow>
            (case deref (NodeGroup_objs s) ngr of
               None \<Rightarrow> (Inl NoObject, s)
             | Some ng \<Rightarrow>
                 (case rpc e s (Call (ng_client ng) ''create_node'' [name, classname] kw) of
                    (Inl x, s1) \<Rightarrow> (Inl x, s1)
                  | (Inr v, s1) \<Rightarrow>
                      (let nr = length (Node_objs s1)
                       in (Inr (),
                           s1\<lparr>Node_objs := Node_objs s1 @ [new_Node ngr name classname],
                              nodes := AList.update name nr (nodes s1),
                              NodeGroup_objs := (NodeGroup_objs s1)
                                [ngr := ng\<lparr>ng_nodes := AList.update name nr (ng_nodes ng)\<rparr>]\<rparr>)))))"

definition list_nodes :: "state \<Rightarrow> string option \<Rightarrow> exn + string list" where
  "list_nodes s nodegroup =
     (case nodegroup of
        None \<Rightarrow> Inr (map fst (nodes s))
      | Some n \<Rightarrow>
          (case map_of (nodegroups s) n of
             None \<Rightarrow> Inl (KeyError n)
           | Some ngr \<Rightarrow>
               (case deref (NodeGroup_objs s) ngr of
                  None \<Rightarrow> Inl NoObject
                | Some ng \<Rightarrow> Inr (map fst (ng_nodes ng)))))"

definition control_node ::
  "env \<Rightarrow> state \<Rightarrow> string \<Rightarrow> string \<Rightarrow> kwargs \<Rightarrow> (exn + string) \<times> state" where
  "control_node e s name method kw =
     (case map_of (nodes s) name of
        None \<Rightarrow> (Inl (KeyError name), s)
      | Some nr \<Rightarrow>
          (case deref (Node_objs s) nr of
             None \<Rightarrow> (Inl NoObject, s)
           | Some node \<Rightarrow>
               (case deref (NodeGroup_objs s) (n_nodegroup node) of
                  None \<Rightarrow> (Inl NoObject, s)
                | Some ng \<Rightarrow> rpc e s (Call (ng_client ng) ''control_node'' [name, method] kw))))"

text \<open>
  \<open>delete_node\<close>: after the remote call, \<^verbatim>\<open>del self.nodes[name]\<close> removes the global entry
  and \<^verbatim>\<open>ng.delete_node(name)\<close> runs \<^verbatim>\<open>del self.nodes[name]\<close> on the Nodegroup's own
  dictionary, which raises KeyError when the name is not there.
\<close>

definition delete_node :: "env \<Rightarrow> state \<Rightarrow> string \<Rightarrow> (exn + unit) \<times> state" where
  "delete_node e s name =
     (case map_of (nodes s) name of
        None \<Rightarrow> (Inl (KeyError name), s)
      | Some nr \<Rightarrow>
          (case deref (Node_objs s) nr of
             None \<Rightarrow> (Inl NoObject, s)
           | Some node \<Rightarrow>
               (let ngr = n_nodegroup node in
                case deref (NodeGroup_objs s) ngr of
                  None \<Rightarrow> (Inl NoObject, s)
                | Some ng \<Rightarrow>
                    (case rpc e s (Call (ng_client ng) ''delete_node'' [name] []) of
                       (Inl x, s1) \<Rightarrow> (Inl x, s1)
                     | (Inr v, s1) \<Rightarrow>
                         (let s2 = s1\<lparr>nodes := AList.delete name (nodes s1)\<rparr>
                          in if map_of (ng_nodes ng) name = None
                             then (Inl (KeyError name), s2)
                             else (Inr (),
                                   s2\<lparr>NodeGroup_objs := (NodeGroup_objs s2)
                                        [ngr := ng\<lparr>ng_nodes :=
                                                   AList.delete name (ng_nodes ng)\<rparr>]\<rparr>))))))"

definition suggest_nodegroup_name :: "state \<Rightarrow> string \<times> state" where
  "suggest_nodegroup_name s =
     (''nodegroup-'' @ fmt_d (priv_next_nodegroup_name s),
      s\<lparr>priv_next_nodegroup_name := priv_next_nodegroup_name s + 1\<rparr>)"

definition suggest_node_name :: "state \<Rightarrow> string \<times> state" where
  "suggest_node_name s =
     (''node-'' @ fmt_d (priv_next_node_name s),
      s\<lparr>priv_next_node_name := priv_next_node_name s + 1\<rparr>)"

text \<open>
  The loop of \<open>start_all_nodes\<close> and \<open>stop_all_nodes\<close> over \<^verbatim>\<open>self.nodegroups.values()\<close>:
  one remote call per Nodegroup, in dictionary order; an exception of a call leaves the
  loop and the method.
\<close>

fun call_all :: "env \<Rightarrow> string \<Rightarrow> state \<Rightarrow> ref list \<Rightarrow> (exn + unit) \<times> state" where
  "call_all e method s [] = (Inr (), s)"
| "call_all e method s (ngr # rest) =
     (case deref (NodeGroup_objs s) ngr of
        None \<Rightarrow> (Inl NoObject, s)
      | Some ng \<Rightarrow>
          (case rpc e s (Call (ng_client ng) method [] []) of
             (Inl x, s1) \<Rightarrow> (Inl x, s1)
           | (Inr v, s1) \<Rightarrow> call_all e method s1 rest))"

definition start_all_nodes :: "env \<Rightarrow> state \<Rightarrow> (exn + unit) \<times> state" where
  "start_all_nodes e s = call_all e ''start_all_nodes'' s (map snd (nodegroups s))"

definition stop_all_nodes :: "env \<Rightarrow> state \<Rightarrow> (exn + unit) \<times> state" where
  "stop_all_nodes e s = call_all e ''stop_all_nodes'' s (map snd (nodegroups s))"

section \<open>Sample environments and states\<close>

text \<open>
  Concrete inputs on which the theorems below are instantiated: an environment whose
  agents always answer, one whose agents always fail, and the states reached by
  connecting a Host, creating Nodegroups on it and creating a Node.
\<close>

definition env_ok :: env where
  "env_ok =
     \<lparr>host_reply = (\<lambda>log c. Inr (''ng'', ''tcp://127.0.0.1:5001'')),
      reply = (\<lambda>log c. Inr ''ok''),
      launch = (\<lambda>ps name addr. Inr \<lparr>proc_name = name, proc_addr = ''tcp://127.0.0.1:6000''\<rparr>)\<rparr>"

definition env_down :: env where
  "env_down =
     \<lparr>host_reply = (\<lambda>log c. Inl ''timeout''),
      reply = (\<lambda>log c. Inl ''timeout''),
      launch = (\<lambda>ps name addr. Inl ''no process'')\<rparr>"

definition st_host :: state where
  "st_host = connect_host (init ''tcp://127.0.0.1:4000'') ''h1'' ''tcp://127.0.0.1:5000''"

definition st_ng :: state where
  "st_ng = snd (create_nodegroup env_ok st_host ''h1'' ''ngA'')"

definition st_ng2 :: state where
  "st_ng2 = snd (create_nodegroup env_ok st_ng ''h1'' ''ngB'')"

definition st_node :: state where
  "st_node = snd (create_node env_ok st_ng ''ngA'' ''nodeA'' ''Acquirer'' [])"

text \<open>The states of the round trip: Node \<open>n1\<close> created in \<open>ngA\<close>, then deleted.\<close>

definition st_n1 :: state where
  "st_n1 = snd (create_node env_ok st_ng ''ngA'' ''n1'' ''Cls'' [])"

definition st_rt :: state where
  "st_rt = snd (delete_node env_ok st_n1 ''n1'')"

text \<open>An environment in which the agent of Nodegroup \<open>ngA\<close> times out and every other answers.\<close>

definition env_ngA_down :: env where
  "env_ngA_down =
     \<lparr>host_reply = (\<lambda>log c. Inr (''ng'', ''tcp://127.0.0.1:5001'')),
      reply = (\<lambda>log c. case c of Call (RPCClient name addr) method args kw \<Rightarrow>
                 if name = ''ngA'' then Inl ''timeout'' else Inr ''ok''),
      launch = (\<lambda>ps name addr. Inr \<lparr>proc_name = name, proc_addr = ''tcp://127.0.0.1:6000''\<rparr>)\<rparr>"

section \<open>What a broadcast owes\<close>

text \<open>
  The remote call of a broadcast to one Nodegroup, and the calls of a broadcast to every
  registered Nodegroup, in dictionary order.
\<close>

definition call_to :: "state \<Rightarrow> string \<Rightarrow> ref \<Rightarrow> rpc_call" where
  "call_to s method ngr = Call (ng_client (NodeGroup_objs s ! ngr)) method [] []"

definition broadcast_calls :: "state \<Rightarrow> string \<Rightarrow> rpc_call list" where
  "broadcast_calls s method = map (call_to s method) (map snd (nodegroups s))"

section \<open>Sequences of operations\<close>

text \<open>
  The public methods of the Manager as a datatype of requests, the values they return,
  and the run of a sequence of requests, each paired with the outside world it meets.
  A request that raises leaves the state its method had reached, and the run goes on
  with the next request, as an RPC server does.
\<close>

datatype op =
    Connect_host string string
  | Disconnect_host string
  | Default_host
  | Close_host string
  | Close
  | List_hosts
  | Create_nodegroup string string
  | List_nodegroups "string option"
  | Create_node string string string kwargs
  | List_nodes "string option"
  | Control_node string string kwargs
  | Delete_node string
  | Suggest_nodegroup_name
  | Suggest_node_name
  | Start_all_nodes
  | Stop_all_nodes

datatype result = Nothing | Str string | Pair string string | Names "string list"

definition returning :: "('a \<Rightarrow> result) \<Rightarrow> (exn + 'a) \<times> state \<Rightarrow> (exn + result) \<times> state" where
  "returning f p = (case p of (Inl x, s) \<Rightarrow> (Inl x, s) | (Inr v, s) \<Rightarrow> (Inr (f v), s))"

fun exec :: "env \<Rightarrow> state \<Rightarrow> op \<Rightarrow> (exn + result) \<times> state" where
  "exec e s (Connect_host name addr) = (Inr Nothing, connect_host s name addr)"
| "exec e s (Disconnect_host name) = returning (\<lambda>u. Nothing) (disconnect_host s name)"
| "exec e s Default_host = returning (\<lambda>(n, a). Pair n a) (default_host e s)"
| "exec e s (Close_host name) = returning (\<lambda>u. Nothing) (close_host e s name)"
| "exec e s Close = (Inr Nothing, close s)"
| "exec e s List_hosts = (Inr (Names (list_hosts s)), s)"
| "exec e s (Create_nodegroup host name) =
     returning (\<lambda>(n, a). Pair n a) (create_nodegroup e s host name)"
| "exec e s (List_nodegroups host) = returning Names (list_nodegroups s host, s)"
| "exec e s (Create_node nodegroup name classname kw) =
     returning (\<lambda>u. Nothing) (create_node e s nodegroup name classname kw)"
| "exec e s (List_nodes nodegroup) = returning Names (list_nodes s nodegroup, s)"
| "exec e s (Control_node name method kw) = returning Str (control_node e s name method kw)"
| "exec e s (Delete_node name) = returning (\<lambda>u. Nothing) (delete_node e s name)"
| "exec e s Suggest_nodegroup_name =
     (case suggest_nodegroup_name s of (name, s') \<Rightarrow> (Inr (Str name), s'))"
| "exec e s Suggest_node_name =
     (case suggest_node_name s of (name, s') \<Rightarrow> (Inr (Str name), s'))"
| "exec e s Start_all_nodes = returning (\<lambda>u. Nothing) (start_all_nodes e s)"
| "exec e s Stop_all_nodes = returning (\<lambda>u. Nothing) (stop_all_nodes e s)"

fun run :: "state \<Rightarrow> (env \<times> op) list \<Rightarrow> (exn + result) list \<times> state" where
  "run s [] = ([], s)"
| "run s ((e, op) # rest) =
     (case exec e s op of (r, s1) \<Rightarrow> (case run s1 rest of (rs, s2) \<Rightarrow> (r # rs, s2)))"

text \<open>The answers a run gave to the requests equal to \<open>op\<close>, in order.\<close>

definition answers :: "op \<Rightarrow> (env \<times> op) list \<Rightarrow> (exn + result) list \<Rightarrow> (exn + result) list" where
  "answers op reqs rs = map snd (filter (\<lambda>(req, r). snd req = op) (zip reqs rs))"

text \<open>
  A caller registers a Nodegroup and a Node under names of the form the suggestions
  have.
\<close>

definition st_own :: state where
  "st_own =
     snd (create_node env_ok (snd (create_nodegroup env_ok st_host ''h1'' ''nodegroup-0''))
            ''nodegroup-0'' ''node-0'' ''Acquirer'' [])"

section \<open>Consistency of the registry\<close>

text \<open>
  The dictionaries of a state are Python dictionaries: no key occurs twice, in the
  Manager's own three and in the per-owner dictionaries of the registered Hosts and
  Nodegroups.
\<close>

definition dicts_ok :: "state \<Rightarrow> bool" where
  "dicts_ok s \<longleftrightarrow>
     distinct (map fst (hosts s)) \<and> distinct (map fst (nodegroups s)) \<and>
     distinct (map fst (nodes s)) \<and>
     (\<forall>(hn, hr) \<in> set (hosts s).
        case deref (Host_objs s) hr of
          None \<Rightarrow> False
        | Some h \<Rightarrow> distinct (map fst (h_nodegroups h))) \<and>
     (\<forall>(gn, ngr) \<in> set (nodegroups s).
        case deref (NodeGroup_objs s) ngr of
          None \<Rightarrow> False
        | Some ng \<Rightarrow> distinct (map fst (ng_nodes ng)))"

text \<open>
  The global and the per-owner registries agree in both directions.  Every entry of the
  global \<open>nodegroups\<close> is an entry, under the same name, of the \<open>nodegroups\<close> of its owning
  Host, which is a registered Host; every entry of the \<open>nodegroups\<close> of a registered Host
  is an entry, under the same name, of the global \<open>nodegroups\<close>, and the Nodegroup is owned
  by that Host.  Likewise for the global \<open>nodes\<close> and the \<open>nodes\<close> of the registered
  Nodegroups.
\<close>

definition consistent :: "state \<Rightarrow> bool" where
  "consistent s \<longleftrightarrow>
     (\<forall>(name, ngr) \<in> set (nodegroups s).
        case deref (NodeGroup_objs s) ngr of
          None \<Rightarrow> False
        | Some ng \<Rightarrow>
            ng_host ng \<in> snd ` set (hosts s) \<and>
            (case deref (Host_objs s) (ng_host ng) of
               None \<Rightarrow> False
             | Some h \<Rightarrow> (name, ngr) \<in> set (h_nodegroups h))) \<and>
     (\<forall>(hn, hr) \<in> set (hosts s).
        case deref (Host_objs s) hr of
          None \<Rightarrow> False
        | Some h \<Rightarrow>
            (\<forall>(name, ngr) \<in> set (h_nodegroups h).
               (name, ngr) \<in> set (nodegroups s) \<and>
               (case deref (NodeGroup_objs s) ngr of
                  None \<Rightarrow> False
                | Some ng \<Rightarrow> ng_host ng = hr))) \<and>
     (\<forall>(name, nr) \<in> set (nodes s).
        case deref (Node_objs s) nr of
          None \<Rightarrow> False
        | Some node \<Rightarrow>
            n_nodegroup node \<in> snd ` set (nodegroups s) \<and>
            (case deref (NodeGroup_objs s) (n_nodegroup node) of
               None \<Rightarrow> False
             | Some ng \<Rightarrow> (name, nr) \<in> set (ng_nodes ng))) \<and>
     (\<forall>(gn, ngr) \<in> set (nodegroups s).
        case deref (NodeGroup_objs s) ngr of
          None \<Rightarrow> False
        | Some ng \<Rightarrow>
            (\<forall>(name, nr) \<in> set (ng_nodes ng).
               (name, nr) \<in> set (nodes s) \<and>
               (case deref (Node_objs s) nr of
                  None \<Rightarrow> False
                | Some node \<Rightarrow> n_nodegroup node = ngr)))"

text \<open>
  The same four links and the uniqueness of keys in terms of lookups, one definition per
  link: the form in which the invariant is carried through the operations.
\<close>

definition ng_linked :: "state \<Rightarrow> bool" where
  "ng_linked s \<longleftrightarrow>
     (\<forall>name ngr. map_of (nodegroups s) name = Some ngr \<longrightarrow>
        (\<exists>ng h hn. deref (NodeGroup_objs s) ngr = Some ng \<and>
           map_of (hosts s) hn = Some (ng_host ng) \<and>
           deref (Host_objs s) (ng_host ng) = Some h \<and>
           map_of (h_nodegroups h) name = Some ngr))"

definition host_linked :: "state \<Rightarrow> bool" where
  "host_linked s \<longleftrightarrow>
     (\<forall>hn hr. map_of (hosts s) hn = Some hr \<longrightarrow>
        (\<exists>h. deref (Host_objs s) hr = Some h \<and> distinct (map fst (h_nodegroups h)) \<and>
           (\<forall>name ngr. map_of (h_nodegroups h) name = Some ngr \<longrightarrow>
              map_of (nodegroups s) name = Some ngr \<and>
              (\<exists>ng. deref (NodeGroup_objs s) ngr = Some ng \<and> ng_host ng = hr))))"

definition node_linked :: "state \<Rightarrow> bool" where
  "node_linked s \<longleftrightarrow>
     (\<forall>name nr. map_of (nodes s) name = Some nr \<longrightarrow>
        (\<exists>node ng gn. deref (Node_objs s) nr = Some node \<and>
           map_of (nodegroups s) gn = Some (n_nodegroup node) \<and>
           deref (NodeGroup_objs s) (n_nodegroup node) = Some ng \<and>
           map_of (ng_nodes ng) name = Some nr))"

definition owner_linked :: "state \<Rightarrow> bool" where
  "owner_linked s \<longleftrightarrow>
     (\<forall>gn ngr. map_of (nodegroups s) gn = Some ngr \<longrightarrow>
        (\<exists>ng. deref (NodeGroup_objs s) ngr = Some ng \<and> distinct (map fst (ng_nodes ng)) \<and>
           (\<forall>name nr. map_of (ng_nodes ng) name = Some nr \<longrightarrow>
              map_of (nodes s) name = Some nr \<and>
              (\<exists>node. deref (Node_objs s) nr = Some node \<and> n_nodegroup node = ngr))))"

definition keys_ok :: "state \<Rightarrow> bool" where
  "keys_ok s \<longleftrightarrow>
     distinct (map fst (hosts s)) \<and> distinct (map fst (nodegroups s)) \<and>
     distinct (map fst (nodes s))"

definition linked :: "state \<Rightarrow> bool" where
  "linked s \<longleftrightarrow> keys_ok s \<and> ng_linked s \<and> host_linked s \<and> node_linked s \<and> owner_linked s"

text \<open>
  The answer of the outside world to the \<open>i\<close>-th call of a broadcast, the calls before it
  having been issued.
\<close>

definition broadcast_reply :: "env \<Rightarrow> state \<Rightarrow> string \<Rightarrow> nat \<Rightarrow> string + string" where
  "broadcast_reply e s method i =
     reply e (rpc_log s @ take i (broadcast_calls s method)) (broadcast_calls s method ! i)"

text \<open>A Host named \<open>default-host\<close> is already connected, at another address.\<close>

definition st_taken :: state where
  "st_taken = connect_host (init ''tcp://127.0.0.1:4000'') ''default-host'' ''tcp://10.1.1.1:9000''"

section \<open>Idempotence of connect_host\<close>

text \<open>
  C7: connecting a name that is already connected changes nothing, whatever the
  address: after \<open>connect_host(n, a)\<close>, a second \<open>connect_host(n, a2)\<close> leaves the state
  exactly as the first call left it.  (\<open>connect_host\<close> has no raising path.)
\<close>

theorem connect_host_idempotent:
  "connect_host (connect_host s n a) n a2 = connect_host s n a"
  by (simp add: connect_host_def update_conv')

section \<open>The sample states, evaluated\<close>

lemma hostname_example:
  "fst (str_rpartition (snd (snd (str_partition ''tcp://127.0.0.1:5000'' ''//''))) '':'') = ''127.0.0.1''"
  by (simp add: str_partition_def str_rpartition_def)

lemma st_host_eq:
  "st_host =
     \<lparr>hosts = [(''h1'', 0)], nodegroups = [], nodes = [],
      priv_default_host = None, priv_next_nodegroup_name = 0,
      priv_next_node_name = 0, priv_addr = ''tcp://127.0.0.1:4000'',
      Host_objs =
        [\<lparr>h_rpc_address = ''tcp://127.0.0.1:5000'', h_rpc_name = ''h1'',
           h_client = RPCClient ''h1'' ''tcp://127.0.0.1:5000'',
           h_nodegroups = [], h_rpc_hostname = ''127.0.0.1''\<rparr>],
      NodeGroup_objs = [], Node_objs = [], rpc_log = [], spawned = [],
      stopped = [], server_closed = False\<rparr>"
  by (simp add: st_host_def init_def connect_host_def new_Host_def hostname_example)

lemma st_ng_eq:
  "st_ng =
     \<lparr>hosts = [(''h1'', 0)], nodegroups = [(''ngA'', 0)], nodes = [],
      priv_default_host = None, priv_next_nodegroup_name = 0,
      priv_next_node_name = 0, priv_addr = ''tcp://127.0.0.1:4000'',
      Host_objs =
        [\<lparr>h_rpc_address = ''tcp://127.0.0.1:5000'', h_rpc_name = ''h1'',
           h_client = RPCClient ''h1'' ''tcp://127.0.0.1:5000'',
           h_nodegroups = [(''ngA'', 0)], h_rpc_hostname = ''127.0.0.1''\<rparr>],
      NodeGroup_objs =
        [\<lparr>ng_host = 0, ng_rpc_address = ''tcp://127.0.0.1:5001'', ng_rpc_name = ''ngA'',
           ng_client = RPCClient ''ngA'' ''tcp://127.0.0.1:5001'', ng_nodes = []\<rparr>],
      Node_objs = [],
      rpc_log = [Call (RPCClient ''h1'' ''tcp://127.0.0.1:5000'') ''create_nodegroup''
                   [''ngA'', ''tcp://127.0.0.1:*''] []],
      spawned = [], stopped = [], server_closed = False\<rparr>"
  by (simp add: st_ng_def st_host_eq create_nodegroup_def deref_def env_ok_def new_NodeGroup_def)

lemma st_node_eq:
  "st_node =
     \<lparr>hosts = [(''h1'', 0)], nodegroups = [(''ngA'', 0)], nodes = [(''nodeA'', 0)],
      priv_default_host = None, priv_next_nodegroup_name = 0,
      priv_next_node_name = 0, priv_addr = ''tcp://127.0.0.1:4000'',
      Host_objs =
        [\<lparr>h_rpc_address = ''tcp://127.0.0.1:5000'', h_rpc_name = ''h1'',
           h_client = RPCClient ''h1'' ''tcp://127.0.0.1:5000'',
           h_nodegroups = [(''ngA'', 0)], h_rpc_hostname = ''127.0.0.1''\<rparr>],
      NodeGroup_objs =
        [\<lparr>ng_host = 0, ng_rpc_address = ''tcp://127.0.0.1:5001'', ng_rpc_name = ''ngA'',
           ng_client = RPCClient ''ngA'' ''tcp://127.0.0.1:5001'',
           ng_nodes = [(''nodeA'', 0)]\<rparr>],
      Node_objs =
        [\<lparr>n_nodegroup = 0, n_name = ''nodeA'', n_classname = ''Acquirer'', n_outputs = []\<rparr>],
      rpc_log = [Call (RPCClient ''h1'' ''tcp://127.0.0.1:5000'') ''create_nodegroup''
                   [''ngA'', ''tcp://127.0.0.1:*''] [],
                 Call (RPCClient ''ngA'' ''tcp://127.0.0.1:5001'') ''create_node''
                   [''nodeA'', ''Acquirer''] []],
      spawned = [], stopped = [], server_closed = False\<rparr>"
  by (simp add: st_node_def st_ng_eq create_node_def deref_def env_ok_def new_Node_def rpc_def)

lemma st_ng2_eq:
  "st_ng2 =
     \<lparr>hosts = [(''h1'', 0)], nodegroups = [(''ngA'', 0), (''ngB'', 1)], nodes = [],
      priv_default_host = None, priv_next_nodegroup_name = 0,
      priv_next_node_name = 0, priv_addr = ''tcp://127.0.0.1:4000'',
      Host_objs =
        [\<lparr>h_rpc_address = ''tcp://127.0.0.1:5000'', h_rpc_name = ''h1'',
           h_client = RPCClient ''h1'' ''tcp://127.0.0.1:5000'',
           h_nodegroups = [(''ngA'', 0), (''ngB'', 1)], h_rpc_hostname = ''127.0.0.1''\<rparr>],
      NodeGroup_objs =
        [\<lparr>ng_host = 0, ng_rpc_address = ''tcp://127.0.0.1:5001'', ng_rpc_name = ''ngA'',
           ng_client = RPCClient ''ngA'' ''tcp://127.0.0.1:5001'', ng_nodes = []\<rparr>,
         \<lparr>ng_host = 0, ng_rpc_address = ''tcp://127.0.0.1:5001'', ng_rpc_name = ''ngB'',
           ng_client = RPCClient ''ngB'' ''tcp://127.0.0.1:5001'', ng_nodes = []\<rparr>],
      Node_objs = [],
      rpc_log = [Call (RPCClient ''h1'' ''tcp://127.0.0.1:5000'') ''create_nodegroup''
                   [''ngA'', ''tcp://127.0.0.1:*''] [],
                 Call (RPCClient ''h1'' ''tcp://127.0.0.1:5000'') ''create_nodegroup''
                   [''ngB'', ''tcp://127.0.0.1:*''] []],
      spawned = [], stopped = [], server_closed = False\<rparr>"
  by (simp add: st_ng2_def st_ng_eq create_nodegroup_def deref_def env_ok_def new_NodeGroup_def)

section \<open>The object store\<close>

lemma deref_Some_iff: "deref objs r = Some x \<longleftrightarrow> r < length objs \<and> objs ! r = x"
  by (auto simp: deref_def)

lemma deref_None_iff: "deref objs r = None \<longleftrightarrow> length objs \<le> r"
  by (auto simp: deref_def)

lemma deref_update:
  "deref (objs[i := v]) r = (if r < length objs then Some (if r = i then v else objs ! r) else None)"
  by (auto simp: deref_def)

lemma deref_append:
  "deref (objs @ [v]) r =
     (if r < length objs then Some (objs ! r) else if r = length objs then Some v else None)"
  by (auto simp: deref_def nth_append)

section \<open>Name conflicts\<close>

text \<open>
  C3: \<open>create_nodegroup\<close> with a name that already denotes a registered Nodegroup, and
  \<open>create_node\<close> with a name that already denotes a registered Node, raise the
  "already exists" KeyError and return the state they were given: the registry, the
  object store, the counters and the log of remote calls are all unchanged, so no remote
  call was issued.
\<close>

theorem create_conflict:
  "(map_of (nodegroups s) name \<noteq> None \<longrightarrow>
      create_nodegroup e s host name =
        (Inl (KeyError (''Nodegroup named '' @ name @ '' already exists'')), s)) \<and>
   (map_of (nodes s) name \<noteq> None \<longrightarrow>
      create_node e s nodegroup name classname kw =
        (Inl (KeyError (''Node named '' @ name @ '' already exists'')), s))"
  by (simp add: create_nodegroup_def create_node_def)

theorem create_conflict_witness:
  "map_of (nodegroups st_node) ''ngA'' \<noteq> None \<and>
   create_nodegroup env_ok st_node ''h2'' ''ngA'' =
     (Inl (KeyError ''Nodegroup named ngA already exists''), st_node) \<and>
   map_of (nodes st_node) ''nodeA'' \<noteq> None \<and>
   create_node env_ok st_node ''ngA'' ''nodeA'' ''Acquirer'' [] =
     (Inl (KeyError ''Node named nodeA already exists''), st_node)"
proof -
  have ng: "map_of (nodegroups st_node) ''ngA'' \<noteq> None"
    by (simp add: st_node_eq)
  have nd: "map_of (nodes st_node) ''nodeA'' \<noteq> None"
    by (simp add: st_node_eq)
  from create_conflict [of st_node "''ngA''" env_ok "''h2''" "''ngA''" "''Acquirer''" "[]"]
  have "create_nodegroup env_ok st_node ''h2'' ''ngA'' =
     (Inl (KeyError ''Nodegroup named ngA already exists''), st_node)"
    using ng by simp
  moreover
  from create_conflict [of st_node "''nodeA''" env_ok "''h2''" "''ngA''" "''Acquirer''" "[]"]
  have "create_node env_ok st_node ''ngA'' ''nodeA'' ''Acquirer'' [] =
     (Inl (KeyError ''Node named nodeA already exists''), st_node)"
    using nd by simp
  ultimately show ?thesis using ng nd by simp
qed

section \<open>Remote failures\<close>

text \<open>
  C4: when the remote call made by \<open>create_nodegroup\<close>, \<open>create_node\<close> or \<open>delete_node\<close>
  fails, the operation raises the remote error and the state differs from the one before
  the call only by the call recorded in the log: the Host, Nodegroup and Node
  dictionaries and the per-owner dictionaries in the store are as they were.
\<close>

theorem remote_failure_no_mutation:
  "(map_of (nodegroups s) name = None \<and> map_of (hosts s) host = Some hr \<and>
    deref (Host_objs s) hr = Some h \<and>
    host_reply e (rpc_log s)
      (Call (h_client h) ''create_nodegroup'' [name, ''tcp://'' @ h_rpc_hostname h @ '':*''] [])
      = Inl msg \<longrightarrow>
    create_nodegroup e s host name =
      (Inl (RemoteError msg),
       s\<lparr>rpc_log := rpc_log s @
          [Call (h_client h) ''create_nodegroup''
             [name, ''tcp://'' @ h_rpc_hostname h @ '':*''] []]\<rparr>)) \<and>
   (map_of (nodes s) name = None \<and> map_of (nodegroups s) nodegroup = Some ngr \<and>
    deref (NodeGroup_objs s) ngr = Some ng \<and>
    reply e (rpc_log s) (Call (ng_client ng) ''create_node'' [name, classname] kw) = Inl msg \<longrightarrow>
    create_node e s nodegroup name classname kw =
      (Inl (RemoteError msg),
       s\<lparr>rpc_log := rpc_log s @
          [Call (ng_client ng) ''create_node'' [name, classname] kw]\<rparr>)) \<and>
   (map_of (nodes s) name = Some nr \<and> deref (Node_objs s) nr = Some node \<and>
    deref (NodeGroup_objs s) (n_nodegroup node) = Some ng' \<and>
    reply e (rpc_log s) (Call (ng_client ng') ''delete_node'' [name] []) = Inl msg \<longrightarrow>
    delete_node e s name =
      (Inl (RemoteError msg),
       s\<lparr>rpc_log := rpc_log s @ [Call (ng_client ng') ''delete_node'' [name] []]\<rparr>))"
  by (simp add: create_nodegroup_def create_node_def delete_node_def rpc_def)

text \<open>
  The three failures on the sample state with a Node, against agents that always time
  out.
\<close>

theorem remote_failure_no_mutation_witness:
  "create_nodegroup env_down st_node ''h1'' ''ngB'' =
     (Inl (RemoteError ''timeout''),
      st_node\<lparr>rpc_log := rpc_log st_node @
         [Call (RPCClient ''h1'' ''tcp://127.0.0.1:5000'') ''create_nodegroup''
            [''ngB'', ''tcp://127.0.0.1:*''] []]\<rparr>) \<and>
   create_node env_down st_node ''ngA'' ''nodeB'' ''Acquirer'' [] =
     (Inl (RemoteError ''timeout''),
      st_node\<lparr>rpc_log := rpc_log st_node @
         [Call (RPCClient ''ngA'' ''tcp://127.0.0.1:5001'') ''create_node''
            [''nodeB'', ''Acquirer''] []]\<rparr>) \<and>
   delete_node env_down st_node ''nodeA'' =
     (Inl (RemoteError ''timeout''),
      st_node\<lparr>rpc_log := rpc_log st_node @
         [Call (RPCClient ''ngA'' ''tcp://127.0.0.1:5001'') ''delete_node'' [''nodeA''] []]\<rparr>)"
proof -
  let ?h = "\<lparr>h_rpc_address = ''tcp://127.0.0.1:5000'', h_rpc_name = ''h1'',
           h_client = RPCClient ''h1'' ''tcp://127.0.0.1:5000'',
           h_nodegroups = [(''ngA'', 0)], h_rpc_hostname = ''127.0.0.1''\<rparr>"
  let ?ng = "\<lparr>ng_host = 0, ng_rpc_address = ''tcp://127.0.0.1:5001'', ng_rpc_name = ''ngA'',
           ng_client = RPCClient ''ngA'' ''tcp://127.0.0.1:5001'',
           ng_nodes = [(''nodeA'', 0)]\<rparr>"
  let ?node = "\<lparr>n_nodegroup = 0, n_name = ''nodeA'', n_classname = ''Acquirer'', n_outputs = []\<rparr>"
  have a: "create_nodegroup env_down st_node ''h1'' ''ngB'' =
     (Inl (RemoteError ''timeout''),
      st_node\<lparr>rpc_log := rpc_log st_node @
         [Call (RPCClient ''h1'' ''tcp://127.0.0.1:5000'') ''create_nodegroup''
            [''ngB'', ''tcp://127.0.0.1:*''] []]\<rparr>)"
    using remote_failure_no_mutation
      [where s = st_node and name = "''ngB''" and host = "''h1''" and hr = 0 and h = ?h
         and e = env_down and msg = "''timeout''"]
    by (simp add: st_node_eq deref_def env_down_def)
  have b: "create_node env_down st_node ''ngA'' ''nodeB'' ''Acquirer'' [] =
     (Inl (RemoteError ''timeout''),
      st_node\<lparr>rpc_log := rpc_log st_node @
         [Call (RPCClient ''ngA'' ''tcp://127.0.0.1:5001'') ''create_node''
            [''nodeB'', ''Acquirer''] []]\<rparr>)"
    using remote_failure_no_mutation
      [where s = st_node and name = "''nodeB''" and nodegroup = "''ngA''" and ngr = 0
         and ng = ?ng and classname = "''Acquirer''" and kw = "[]"
         and e = env_down and msg = "''timeout''"]
    by (simp add: st_node_eq deref_def env_down_def)
  have c: "delete_node env_down st_node ''nodeA'' =
     (Inl (RemoteError ''timeout''),
      st_node\<lparr>rpc_log := rpc_log st_node @
         [Call (RPCClient ''ngA'' ''tcp://127.0.0.1:5001'') ''delete_node'' [''nodeA''] []]\<rparr>)"
    using remote_failure_no_mutation
      [where s = st_node and name = "''nodeA''" and nr = 0 and node = ?node
         and ng' = ?ng and e = env_down and msg = "''timeout''"]
    by (simp add: st_node_eq deref_def env_down_def)
  from a b c show ?thesis by simp
qed

section \<open>Unknown names\<close>

text \<open>
  The check for a name conflict comes first in \<open>create_nodegroup\<close> and \<open>create_node\<close>:
  with an unknown Host and a Nodegroup name that is already registered,
  \<open>create_nodegroup\<close> raises the "already exists" KeyError, not the KeyError of the failed
  Host lookup.
\<close>

theorem not_found_counterexample:
  "map_of (hosts st_ng) ''nohost'' = None \<and>
   create_nodegroup env_ok st_ng ''nohost'' ''ngA'' =
     (Inl (KeyError ''Nodegroup named ngA already exists''), st_ng) \<and>
   fst (create_nodegroup env_ok st_ng ''nohost'' ''ngA'') \<noteq> Inl (KeyError ''nohost'')"
  by (simp add: st_ng_eq create_nodegroup_def)

text \<open>
  C5 (amended): an operation that names an entity absent from the registry raises the
  KeyError of the failed lookup, carrying the missing name, and returns the state it was
  given (so before any remote call, the log being part of the state):
  \<open>disconnect_host\<close>, \<open>close_host\<close> and \<open>list_nodegroups\<close> with an unconnected Host;
  \<open>create_nodegroup\<close> with an unconnected Host and a Nodegroup name not yet registered;
  \<open>list_nodes\<close> with an unknown Nodegroup; \<open>create_node\<close> with an unknown Nodegroup and a
  Node name not yet registered; \<open>control_node\<close> and \<open>delete_node\<close> with an unknown Node.
\<close>

theorem not_found:
  "(map_of (hosts s) h = None \<longrightarrow>
      disconnect_host s h = (Inl (KeyError h), s) \<and>
      close_host e s h = (Inl (KeyError h), s) \<and>
      list_nodegroups s (Some h) = Inl (KeyError h) \<and>
      (map_of (nodegroups s) name = None \<longrightarrow>
         create_nodegroup e s h name = (Inl (KeyError h), s))) \<and>
   (map_of (nodegroups s) g = None \<longrightarrow>
      list_nodes s (Some g) = Inl (KeyError g) \<and>
      (map_of (nodes s) name = None \<longrightarrow>
         create_node e s g name classname kw = (Inl (KeyError g), s))) \<and>
   (map_of (nodes s) n = None \<longrightarrow>
      control_node e s n method kw = (Inl (KeyError n), s) \<and>
      delete_node e s n = (Inl (KeyError n), s))"
  by (simp add: disconnect_host_def close_host_def list_nodegroups_def create_nodegroup_def
      list_nodes_def create_node_def control_node_def delete_node_def)

theorem not_found_witness:
  "map_of (hosts st_ng) ''h9'' = None \<and>
   disconnect_host st_ng ''h9'' = (Inl (KeyError ''h9''), st_ng) \<and>
   close_host env_ok st_ng ''h9'' = (Inl (KeyError ''h9''), st_ng) \<and>
   list_nodegroups st_ng (Some ''h9'') = Inl (KeyError ''h9'') \<and>
   map_of (nodegroups st_ng) ''n1'' = None \<and>
   create_nodegroup env_ok st_ng ''h9'' ''n1'' = (Inl (KeyError ''h9''), st_ng) \<and>
   map_of (nodegroups st_ng) ''g9'' = None \<and>
   list_nodes st_ng (Some ''g9'') = Inl (KeyError ''g9'') \<and>
   map_of (nodes st_ng) ''n1'' = None \<and>
   create_node env_ok st_ng ''g9'' ''n1'' ''Acquirer'' [] = (Inl (KeyError ''g9''), st_ng) \<and>
   map_of (nodes st_ng) ''n9'' = None \<and>
   control_node env_ok st_ng ''n9'' ''start'' [] = (Inl (KeyError ''n9''), st_ng) \<and>
   delete_node env_ok st_ng ''n9'' = (Inl (KeyError ''n9''), st_ng)"
proof -
  have h: "map_of (hosts st_ng) ''h9'' = None"
    and g: "map_of (nodegroups st_ng) ''g9'' = None"
    and g1: "map_of (nodegroups st_ng) ''n1'' = None"
    and n1: "map_of (nodes st_ng) ''n1'' = None"
    and n: "map_of (nodes st_ng) ''n9'' = None"
    by (simp_all add: st_ng_eq)
  show ?thesis
    using h g g1 n1 n
      not_found [of st_ng "''h9''" env_ok "''n1''" "''g9''" "''Acquirer''" "[]" "''n9''" "''start''"]
    by simp
qed

section \<open>disconnect_host\<close>

lemma disconnect_host_state: "snd (disconnect_host s name) = s"
  by (simp add: disconnect_host_def split: option.splits)

text \<open>
  C1 (the code at the failing input): on the sample state in which Host \<open>h1\<close> owns
  Nodegroup \<open>ngA\<close>, which owns Node \<open>nodeA\<close>, \<open>disconnect_host(h1)\<close> raises TypeError and
  removes nothing: \<open>h1\<close>, \<open>ngA\<close> and \<open>nodeA\<close> are still listed afterwards.
\<close>

theorem disconnect_host_removes_nothing:
  "disconnect_host st_node ''h1'' =
     (Inl (TypeError ''_Host object is not iterable''), st_node) \<and>
   list_hosts (snd (disconnect_host st_node ''h1'')) = [''h1''] \<and>
   list_nodegroups (snd (disconnect_host st_node ''h1'')) None = Inr [''ngA''] \<and>
   list_nodes (snd (disconnect_host st_node ''h1'')) None = Inr [''nodeA'']"
  by (simp add: disconnect_host_def list_hosts_def list_nodegroups_def list_nodes_def st_node_eq)

section \<open>default_host\<close>

lemma st_taken_eq:
  "st_taken =
     \<lparr>hosts = [(''default-host'', 0)], nodegroups = [], nodes = [],
      priv_default_host = None, priv_next_nodegroup_name = 0,
      priv_next_node_name = 0, priv_addr = ''tcp://127.0.0.1:4000'',
      Host_objs =
        [\<lparr>h_rpc_address = ''tcp://10.1.1.1:9000'', h_rpc_name = ''default-host'',
           h_client = RPCClient ''default-host'' ''tcp://10.1.1.1:9000'',
           h_nodegroups = [], h_rpc_hostname = ''10.1.1.1''\<rparr>],
      NodeGroup_objs = [], Node_objs = [], rpc_log = [], spawned = [],
      stopped = [], server_closed = False\<rparr>"
  by (simp add: st_taken_def init_def connect_host_def new_Host_def str_partition_def
      str_rpartition_def)

text \<open>
  \<open>default_host\<close> connects through \<open>connect_host\<close>, which does nothing for a name that is
  already connected.  With a Host named \<open>default-host\<close> connected at another address, the
  first call spawns the process and returns its name and address, but the only Host of
  the registry is still the one bound to the other address: the Manager is not connected
  to the process it spawned.
\<close>

theorem default_host_not_connected_counterexample:
  "priv_default_host st_taken = None \<and>
   fst (default_host env_ok st_taken) = Inr (''default-host'', ''tcp://127.0.0.1:6000'') \<and>
   spawned (snd (default_host env_ok st_taken)) =
     [\<lparr>proc_name = ''default-host'', proc_addr = ''tcp://127.0.0.1:6000''\<rparr>] \<and>
   hosts (snd (default_host env_ok st_taken)) = [(''default-host'', 0)] \<and>
   map h_rpc_address (Host_objs (snd (default_host env_ok st_taken))) =
     [''tcp://10.1.1.1:9000''] \<and>
   map h_client (Host_objs (snd (default_host env_ok st_taken))) =
     [RPCClient ''default-host'' ''tcp://10.1.1.1:9000'']"
  by (simp add: st_taken_eq default_host_def connect_host_def env_ok_def Let_def)

text \<open>
  C9 (amended): on a Manager that has no default Host yet, a call of \<open>default_host\<close> that
  returns has spawned exactly one process through the launcher (named \<open>default-host\<close>, at
  the Manager's own address with a wildcard port) and returns the name and address of
  that process.  When no Host of that name is connected, the state afterwards is the
  state before with the process recorded and one new Host registered under the name of the
  process, bound to the address of the process (its client handle too) and owning no
  Nodegroup; when a Host of that name is already connected, the registry is left as it
  is and only the process is recorded.  A second call, whatever the outside world does,
  returns the identical pair and leaves the state as it is, so it spawns nothing.
\<close>

theorem default_host_once:
  assumes "priv_default_host s = None"
    and "default_host e s = (Inr p, s1)"
  shows "\<exists>proc. launch e (spawned s) ''default-host''
                  (fst (str_rpartition (priv_addr s) '':'') @ '':*'') = Inr proc \<and>
           p = (proc_name proc, proc_addr proc) \<and>
           (if map_of (hosts s) (proc_name proc) = None
            then s1 = s\<lparr>spawned := spawned s @ [proc], priv_default_host := Some proc,
                        Host_objs := Host_objs s @ [new_Host (proc_name proc) (proc_addr proc)],
                        hosts := AList.update (proc_name proc) (length (Host_objs s)) (hosts s)\<rparr> \<and>
                 (\<exists>hr h. map_of (hosts s1) (proc_name proc) = Some hr \<and>
                         deref (Host_objs s1) hr = Some h \<and>
                         h_rpc_name h = proc_name proc \<and>
                         h_rpc_address h = proc_addr proc \<and>
                         h_client h = RPCClient (proc_name proc) (proc_addr proc) \<and>
                         h_nodegroups h = [])
            else s1 = s\<lparr>spawned := spawned s @ [proc], priv_default_host := Some proc\<rparr>) \<and>
           spawned s1 = spawned s @ [proc] \<and>
           priv_default_host s1 = Some proc \<and>
           default_host e' s1 = (Inr p, s1)"
proof -
  let ?addr = "fst (str_rpartition (priv_addr s) '':'') @ '':*''"
  from assms obtain proc where l: "launch e (spawned s) ''default-host'' ?addr = Inr proc"
    by (cases "launch e (spawned s) ''default-host'' ?addr")
      (auto simp: default_host_def Let_def)
  let ?s0 = "s\<lparr>spawned := spawned s @ [proc], priv_default_host := Some proc\<rparr>"
  from assms l have p: "p = (proc_name proc, proc_addr proc)"
    and s1: "s1 = connect_host ?s0 (proc_name proc) (proc_addr proc)"
    by (simp_all add: default_host_def Let_def)
  have again: "default_host e' s1 = (Inr p, s1)"
    unfolding s1 p by (simp add: default_host_def connect_host_def)
  have sp: "spawned s1 = spawned s @ [proc]" and dh: "priv_default_host s1 = Some proc"
    unfolding s1 by (simp_all add: connect_host_def)
  show ?thesis
  proof (cases "map_of (hosts s) (proc_name proc) = None")
    case True
    then have eq: "s1 = s\<lparr>spawned := spawned s @ [proc], priv_default_host := Some proc,
        Host_objs := Host_objs s @ [new_Host (proc_name proc) (proc_addr proc)],
        hosts := AList.update (proc_name proc) (length (Host_objs s)) (hosts s)\<rparr>"
      unfolding s1 by (simp add: connect_host_def)
    have "map_of (hosts s1) (proc_name proc) = Some (length (Host_objs s))"
      and "deref (Host_objs s1) (length (Host_objs s)) =
        Some (new_Host (proc_name proc) (proc_addr proc))"
      unfolding eq by (simp_all add: update_conv' deref_append)
    then have "\<exists>hr h. map_of (hosts s1) (proc_name proc) = Some hr \<and>
        deref (Host_objs s1) hr = Some h \<and>
        h_rpc_name h = proc_name proc \<and>
        h_rpc_address h = proc_addr proc \<and>
        h_client h = RPCClient (proc_name proc) (proc_addr proc) \<and>
        h_nodegroups h = []"
      by (simp add: new_Host_def)
    with True eq l p sp dh again show ?thesis
      by (intro exI [of _ proc]) simp
  next
    case False
    then have "s1 = ?s0"
      unfolding s1 by (auto simp: connect_host_def)
    with False l p sp dh again show ?thesis
      by (intro exI [of _ proc]) simp
  qed
qed

theorem default_host_once_witness:
  "fst (default_host env_ok (init ''tcp://127.0.0.1:4000'')) =
     Inr (''default-host'', ''tcp://127.0.0.1:6000'') \<and>
   default_host env_down (snd (default_host env_ok (init ''tcp://127.0.0.1:4000''))) =
     (Inr (''default-host'', ''tcp://127.0.0.1:6000''),
      snd (default_host env_ok (init ''tcp://127.0.0.1:4000''))) \<and>
   spawned (snd (default_host env_ok (init ''tcp://127.0.0.1:4000''))) =
     [\<lparr>proc_name = ''default-host'', proc_addr = ''tcp://127.0.0.1:6000''\<rparr>] \<and>
   hosts (snd (default_host env_ok (init ''tcp://127.0.0.1:4000''))) = [(''default-host'', 0)] \<and>
   map h_rpc_address (Host_objs (snd (default_host env_ok (init ''tcp://127.0.0.1:4000'')))) =
     [''tcp://127.0.0.1:6000''] \<and>
   snd (default_host env_ok st_taken) =
     st_taken\<lparr>spawned := [\<lparr>proc_name = ''default-host'', proc_addr = ''tcp://127.0.0.1:6000''\<rparr>],
              priv_default_host :=
                Some \<lparr>proc_name = ''default-host'', proc_addr = ''tcp://127.0.0.1:6000''\<rparr>\<rparr>"
proof -
  let ?s = "init ''tcp://127.0.0.1:4000''"
  let ?p = "(''default-host'', ''tcp://127.0.0.1:6000'')"
  let ?proc = "\<lparr>proc_name = ''default-host'', proc_addr = ''tcp://127.0.0.1:6000''\<rparr>"
  let ?s1 = "snd (default_host env_ok ?s)"
  let ?t1 = "snd (default_host env_ok st_taken)"
  have none: "priv_default_host ?s = None"
    by (simp add: init_def)
  have f: "fst (default_host env_ok ?s) = Inr ?p"
    by (simp add: default_host_def init_def env_ok_def Let_def)
  then have first: "default_host env_ok ?s = (Inr ?p, ?s1)"
    by (metis prod.collapse)
  from default_host_once [OF none first, of env_down] obtain proc where
    l: "launch env_ok (spawned ?s) ''default-host''
          (fst (str_rpartition (priv_addr ?s) '':'') @ '':*'') = Inr proc"
    and c: "if map_of (hosts ?s) (proc_name proc) = None
       then ?s1 = ?s\<lparr>spawned := spawned ?s @ [proc], priv_default_host := Some proc,
                        Host_objs := Host_objs ?s @ [new_Host (proc_name proc) (proc_addr proc)],
                        hosts := AList.update (proc_name proc) (length (Host_objs ?s)) (hosts ?s)\<rparr> \<and>
                 (\<exists>hr h. map_of (hosts ?s1) (proc_name proc) = Some hr \<and>
                         deref (Host_objs ?s1) hr = Some h \<and>
                         h_rpc_name h = proc_name proc \<and>
                         h_rpc_address h = proc_addr proc \<and>
                         h_client h = RPCClient (proc_name proc) (proc_addr proc) \<and>
                         h_nodegroups h = [])
       else ?s1 = ?s\<lparr>spawned := spawned ?s @ [proc], priv_default_host := Some proc\<rparr>"
    and second: "default_host env_down ?s1 = (Inr ?p, ?s1)"
    by blast
  from l have proc: "proc = ?proc"
    by (simp add: env_ok_def)
  from c have s1: "?s1 = ?s\<lparr>spawned := [?proc], priv_default_host := Some ?proc,
      Host_objs := [new_Host ''default-host'' ''tcp://127.0.0.1:6000''],
      hosts := [(''default-host'', 0)]\<rparr>"
    unfolding proc by (simp add: init_def)
  have a: "spawned ?s1 = [?proc]" and b: "hosts ?s1 = [(''default-host'', 0)]"
    and d: "map h_rpc_address (Host_objs ?s1) = [''tcp://127.0.0.1:6000'']"
    unfolding s1 by (simp_all add: new_Host_def)
  have none': "priv_default_host st_taken = None"
    by (simp add: st_taken_eq)
  have f': "fst (default_host env_ok st_taken) = Inr ?p"
    by (simp add: default_host_def st_taken_eq env_ok_def Let_def)
  then have first': "default_host env_ok st_taken = (Inr ?p, ?t1)"
    by (metis prod.collapse)
  from default_host_once [OF none' first', of env_down] obtain proc' where
    l': "launch env_ok (spawned st_taken) ''default-host''
          (fst (str_rpartition (priv_addr st_taken) '':'') @ '':*'') = Inr proc'"
    and c': "if map_of (hosts st_taken) (proc_name proc') = None
       then ?t1 = st_taken\<lparr>spawned := spawned st_taken @ [proc'],
                        priv_default_host := Some proc',
                        Host_objs := Host_objs st_taken @
                          [new_Host (proc_name proc') (proc_addr proc')],
                        hosts := AList.update (proc_name proc') (length (Host_objs st_taken))
                          (hosts st_taken)\<rparr> \<and>
                 (\<exists>hr h. map_of (hosts ?t1) (proc_name proc') = Some hr \<and>
                         deref (Host_objs ?t1) hr = Some h \<and>
                         h_rpc_name h = proc_name proc' \<and>
                         h_rpc_address h = proc_addr proc' \<and>
                         h_client h = RPCClient (proc_name proc') (proc_addr proc') \<and>
                         h_nodegroups h = [])
       else ?t1 = st_taken\<lparr>spawned := spawned st_taken @ [proc'],
                        priv_default_host := Some proc'\<rparr>"
    by blast
  from l' have proc': "proc' = ?proc"
    by (simp add: env_ok_def)
  have taken: "map_of (hosts st_taken) ''default-host'' \<noteq> None" and sp: "spawned st_taken = []"
    by (simp_all add: st_taken_eq)
  from c' taken sp have t1: "?t1 = st_taken\<lparr>spawned := [?proc], priv_default_host := Some ?proc\<rparr>"
    unfolding proc' by (simp split: if_splits)
  from f second a b d t1 show ?thesis
    by (intro conjI)
qed

section \<open>Round trip of create_node and delete_node\<close>

lemma create_node_success:
  assumes "create_node e s nodegroup name classname kw = (Inr u, s1)"
  obtains ngr ng v where
    "map_of (nodes s) name = None"
    "map_of (nodegroups s) nodegroup = Some ngr"
    "deref (NodeGroup_objs s) ngr = Some ng"
    "reply e (rpc_log s) (Call (ng_client ng) ''create_node'' [name, classname] kw) = Inr v"
    "s1 = s\<lparr>rpc_log := rpc_log s @ [Call (ng_client ng) ''create_node'' [name, classname] kw],
            Node_objs := Node_objs s @ [new_Node ngr name classname],
            nodes := AList.update name (length (Node_objs s)) (nodes s),
            NodeGroup_objs := (NodeGroup_objs s)
              [ngr := ng\<lparr>ng_nodes := AList.update name (length (Node_objs s)) (ng_nodes ng)\<rparr>]\<rparr>"
  using assms
  by (auto simp: create_node_def rpc_def Let_def split: if_splits option.splits sum.splits)

lemma delete_node_success:
  assumes "delete_node e s name = (Inr u, s2)"
  obtains nr node ng v where
    "map_of (nodes s) name = Some nr"
    "deref (Node_objs s) nr = Some node"
    "deref (NodeGroup_objs s) (n_nodegroup node) = Some ng"
    "reply e (rpc_log s) (Call (ng_client ng) ''delete_node'' [name] []) = Inr v"
    "map_of (ng_nodes ng) name \<noteq> None"
    "s2 = s\<lparr>rpc_log := rpc_log s @ [Call (ng_client ng) ''delete_node'' [name] []],
            nodes := AList.delete name (nodes s),
            NodeGroup_objs := (NodeGroup_objs s)
              [n_nodegroup node := ng\<lparr>ng_nodes := AList.delete name (ng_nodes ng)\<rparr>]\<rparr>"
  using assms
  by (auto simp: delete_node_def rpc_def Let_def split: if_splits option.splits sum.splits)

text \<open>
  C6: after a successful \<open>create_node(nodegroup, name, classname)\<close> followed by a
  successful \<open>delete_node(name)\<close>, the name is neither in \<open>list_nodes()\<close> nor in
  \<open>list_nodes(nodegroup)\<close>, and creating the Node again raises no KeyError: whatever the
  outside world and the options, \<open>create_node(nodegroup, name, classname)\<close> reaches its
  remote call and succeeds exactly when that call does.
\<close>

theorem create_delete_roundtrip:
  assumes c: "create_node e s nodegroup name classname kw = (Inr (), s1)"
    and d: "delete_node e2 s1 name = (Inr (), s2)"
  shows "\<exists>every own (ng :: NodeGroup).
           list_nodes s2 None = Inr every \<and> name \<notin> set every \<and>
           list_nodes s2 (Some nodegroup) = Inr own \<and> name \<notin> set own \<and>
           (\<forall>e' kw'. fst (create_node e' s2 nodegroup name classname kw') =
              (case reply e' (rpc_log s2)
                      (Call (ng_client ng) ''create_node'' [name, classname] kw') of
                 Inl msg \<Rightarrow> Inl (RemoteError msg)
               | Inr v \<Rightarrow> Inr ()))"
proof -
  from c obtain ngr ng v where
    fresh: "map_of (nodes s) name = None"
    and reg: "map_of (nodegroups s) nodegroup = Some ngr"
    and obj: "deref (NodeGroup_objs s) ngr = Some ng"
    and s1: "s1 = s\<lparr>rpc_log := rpc_log s @ [Call (ng_client ng) ''create_node'' [name, classname] kw],
            Node_objs := Node_objs s @ [new_Node ngr name classname],
            nodes := AList.update name (length (Node_objs s)) (nodes s),
            NodeGroup_objs := (NodeGroup_objs s)
              [ngr := ng\<lparr>ng_nodes := AList.update name (length (Node_objs s)) (ng_nodes ng)\<rparr>]\<rparr>"
    by (rule create_node_success)
  from obj have lt: "ngr < length (NodeGroup_objs s)"
    by (simp add: deref_Some_iff)
  let ?ng1 = "ng\<lparr>ng_nodes := AList.update name (length (Node_objs s)) (ng_nodes ng)\<rparr>"
  from d obtain nr node ng' where
    n1: "map_of (nodes s1) name = Some nr"
    and n2: "deref (Node_objs s1) nr = Some node"
    and n3: "deref (NodeGroup_objs s1) (n_nodegroup node) = Some ng'"
    and s2: "s2 = s1\<lparr>rpc_log := rpc_log s1 @ [Call (ng_client ng') ''delete_node'' [name] []],
            nodes := AList.delete name (nodes s1),
            NodeGroup_objs := (NodeGroup_objs s1)
              [n_nodegroup node := ng'\<lparr>ng_nodes := AList.delete name (ng_nodes ng')\<rparr>]\<rparr>"
    by (rule delete_node_success)
  from n1 s1 have nr: "nr = length (Node_objs s)"
    by (simp add: update_conv')
  from n2 s1 nr have node: "node = new_Node ngr name classname"
    by (simp add: deref_append)
  then have ngr: "n_nodegroup node = ngr"
    by (simp add: new_Node_def)
  from n3 s1 ngr lt have ng': "ng' = ?ng1"
    by (simp add: deref_update)
  let ?ng2 = "ng'\<lparr>ng_nodes := AList.delete name (ng_nodes ng')\<rparr>"
  have nodes2: "nodes s2 = AList.delete name (nodes s1)"
    and ngs2: "nodegroups s2 = nodegroups s"
    and objs2: "deref (NodeGroup_objs s2) ngr = Some ?ng2"
    using s2 s1 ngr lt by (simp_all add: deref_update)
  have a: "list_nodes s2 None = Inr (map fst (nodes s2))"
    by (simp add: list_nodes_def)
  have a': "name \<notin> set (map fst (nodes s2))"
    by (simp add: nodes2 delete_keys)
  have b: "list_nodes s2 (Some nodegroup) = Inr (map fst (ng_nodes ?ng2))"
    by (simp add: list_nodes_def ngs2 reg objs2)
  have b': "name \<notin> set (map fst (ng_nodes ?ng2))"
    by (simp add: delete_keys)
  have free: "map_of (nodes s2) name = None"
    by (simp add: nodes2 delete_conv')
  have c': "fst (create_node e' s2 nodegroup name classname kw') =
              (case reply e' (rpc_log s2)
                      (Call (ng_client ?ng2) ''create_node'' [name, classname] kw') of
                 Inl msg \<Rightarrow> Inl (RemoteError msg)
               | Inr v \<Rightarrow> Inr ())" for e' kw'
    by (simp add: create_node_def free ngs2 reg objs2 rpc_def Let_def split: sum.splits)
  show ?thesis
    apply (rule exI [of _ "map fst (nodes s2)"])
    apply (rule exI [of _ "map fst (ng_nodes ?ng2)"])
    apply (rule exI [of _ "?ng2"])
    apply (intro conjI allI)
        apply (rule a a' b b' c')+
    done
qed

lemma st_n1_eq:
  "st_n1 =
     \<lparr>hosts = [(''h1'', 0)], nodegroups = [(''ngA'', 0)], nodes = [(''n1'', 0)],
      priv_default_host = None, priv_next_nodegroup_name = 0,
      priv_next_node_name = 0, priv_addr = ''tcp://127.0.0.1:4000'',
      Host_objs =
        [\<lparr>h_rpc_address = ''tcp://127.0.0.1:5000'', h_rpc_name = ''h1'',
           h_client = RPCClient ''h1'' ''tcp://127.0.0.1:5000'',
           h_nodegroups = [(''ngA'', 0)], h_rpc_hostname = ''127.0.0.1''\<rparr>],
      NodeGroup_objs =
        [\<lparr>ng_host = 0, ng_rpc_address = ''tcp://127.0.0.1:5001'', ng_rpc_name = ''ngA'',
           ng_client = RPCClient ''ngA'' ''tcp://127.0.0.1:5001'',
           ng_nodes = [(''n1'', 0)]\<rparr>],
      Node_objs =
        [\<lparr>n_nodegroup = 0, n_name = ''n1'', n_classname = ''Cls'', n_outputs = []\<rparr>],
      rpc_log = [Call (RPCClient ''h1'' ''tcp://127.0.0.1:5000'') ''create_nodegroup''
                   [''ngA'', ''tcp://127.0.0.1:*''] [],
                 Call (RPCClient ''ngA'' ''tcp://127.0.0.1:5001'') ''create_node''
                   [''n1'', ''Cls''] []],
      spawned = [], stopped = [], server_closed = False\<rparr>"
  by (simp add: st_n1_def st_ng_eq create_node_def deref_def env_ok_def new_Node_def rpc_def)

theorem create_delete_roundtrip_witness:
  "fst (create_node env_ok st_ng ''ngA'' ''n1'' ''Cls'' []) = Inr () \<and>
   fst (delete_node env_ok st_n1 ''n1'') = Inr () \<and>
   (\<exists>every. list_nodes st_rt None = Inr every \<and> ''n1'' \<notin> set every) \<and>
   (\<exists>own. list_nodes st_rt (Some ''ngA'') = Inr own \<and> ''n1'' \<notin> set own) \<and>
   fst (create_node env_ok st_rt ''ngA'' ''n1'' ''Cls'' []) = Inr ()"
proof -
  have c: "fst (create_node env_ok st_ng ''ngA'' ''n1'' ''Cls'' []) = Inr ()"
    by (simp add: st_ng_eq create_node_def deref_def env_ok_def rpc_def)
  then have c': "create_node env_ok st_ng ''ngA'' ''n1'' ''Cls'' [] = (Inr (), st_n1)"
    unfolding st_n1_def by (metis prod.collapse)
  have d: "fst (delete_node env_ok st_n1 ''n1'') = Inr ()"
    by (simp add: st_n1_eq delete_node_def deref_def env_ok_def rpc_def)
  then have d': "delete_node env_ok st_n1 ''n1'' = (Inr (), st_rt)"
    unfolding st_rt_def by (metis prod.collapse)
  from create_delete_roundtrip [OF c' d'] obtain every own and ng :: NodeGroup where
    r: "list_nodes st_rt None = Inr every" "''n1'' \<notin> set every"
      "list_nodes st_rt (Some ''ngA'') = Inr own" "''n1'' \<notin> set own"
      "\<And>e' kw'. fst (create_node e' st_rt ''ngA'' ''n1'' ''Cls'' kw') =
              (case reply e' (rpc_log st_rt)
                      (Call (ng_client ng) ''create_node'' [''n1'', ''Cls''] kw') of
                 Inl msg \<Rightarrow> Inl (RemoteError msg)
               | Inr v \<Rightarrow> Inr ())"
    by blast
  from r(5) [of env_ok "[]"] have "fst (create_node env_ok st_rt ''ngA'' ''n1'' ''Cls'' []) = Inr ()"
    by (simp add: env_ok_def)
  with c d r(1-4) show ?thesis by blast
qed

section \<open>Broadcasts\<close>

lemma call_to_log [simp]: "call_to (s\<lparr>rpc_log := l\<rparr>) = call_to s"
  by (simp add: call_to_def fun_eq_iff)

lemma call_all_outcome:
  assumes "\<forall>r \<in> set rs. r < length (NodeGroup_objs s)"
    and "call_all e method s rs = (res, s')"
  shows "\<exists>k \<le> length rs.
           s' = s\<lparr>rpc_log := rpc_log s @ map (call_to s method) (take k rs)\<rparr> \<and>
           (res = Inr () \<longrightarrow> k = length rs) \<and>
           (\<forall>x. res = Inl x \<longrightarrow> 0 < k \<and>
              (\<exists>msg. x = RemoteError msg \<and>
                 reply e (rpc_log s @ map (call_to s method) (take (k - 1) rs))
                   (call_to s method (rs ! (k - 1))) = Inl msg))"
  using assms
proof (induction rs arbitrary: s)
  case Nil
  then show ?case by auto
next
  case (Cons r rs)
  let ?c = "call_to s method r"
  let ?s1 = "s\<lparr>rpc_log := rpc_log s @ [?c]\<rparr>"
  from Cons.prems(1) have r: "deref (NodeGroup_objs s) r = Some (NodeGroup_objs s ! r)"
    by (simp add: deref_def)
  show ?case
  proof (cases "reply e (rpc_log s) ?c")
    case (Inl msg)
    with Cons.prems(2) r have "res = Inl (RemoteError msg)" "s' = ?s1"
      by (simp_all add: rpc_def call_to_def)
    with Inl show ?thesis
      by (intro exI [of _ 1]) simp
  next
    case (Inr v)
    with Cons.prems(2) r have run: "call_all e method ?s1 rs = (res, s')"
      by (simp add: rpc_def call_to_def)
    from Cons.prems(1) have "\<forall>r \<in> set rs. r < length (NodeGroup_objs ?s1)"
      by simp
    from Cons.IH [OF this run] obtain k where
      k: "k \<le> length rs"
      and s': "s' = ?s1\<lparr>rpc_log := rpc_log ?s1 @ map (call_to ?s1 method) (take k rs)\<rparr>"
      and ok: "res = Inr () \<longrightarrow> k = length rs"
      and err: "\<forall>x. res = Inl x \<longrightarrow> 0 < k \<and>
              (\<exists>msg. x = RemoteError msg \<and>
                 reply e (rpc_log ?s1 @ map (call_to ?s1 method) (take (k - 1) rs))
                   (call_to ?s1 method (rs ! (k - 1))) = Inl msg)"
      by blast
    show ?thesis
    proof (intro exI [of _ "Suc k"] conjI allI impI)
      show "Suc k \<le> length (r # rs)" using k by simp
      show "s' = s\<lparr>rpc_log := rpc_log s @ map (call_to s method) (take (Suc k) (r # rs))\<rparr>"
        using s' by simp
      show "Suc k = length (r # rs)" if "res = Inr ()" using that ok by simp
      show "0 < Suc k" by simp
      show "\<exists>msg. x = RemoteError msg \<and>
                 reply e (rpc_log s @ map (call_to s method) (take (Suc k - 1) (r # rs)))
                   (call_to s method ((r # rs) ! (Suc k - 1))) = Inl msg" if "res = Inl x" for x
      proof -
        from err that obtain msg where "0 < k" "x = RemoteError msg"
          "reply e (rpc_log ?s1 @ map (call_to ?s1 method) (take (k - 1) rs))
                   (call_to ?s1 method (rs ! (k - 1))) = Inl msg"
          by blast
        then show ?thesis
          by (cases k) auto
      qed
    qed
  qed
qed

lemma call_all_succeeds:
  assumes "\<forall>r \<in> set rs. r < length (NodeGroup_objs s)"
    and "\<forall>i < length rs. \<exists>v.
           reply e (rpc_log s @ map (call_to s m) (take i rs)) (call_to s m (rs ! i)) = Inr v"
  shows "call_all e m s rs = (Inr (), s\<lparr>rpc_log := rpc_log s @ map (call_to s m) rs\<rparr>)"
  using assms
proof (induction rs arbitrary: s)
  case Nil
  then show ?case by simp
next
  case (Cons r rs)
  let ?c = "call_to s m r"
  let ?s1 = "s\<lparr>rpc_log := rpc_log s @ [?c]\<rparr>"
  from Cons.prems(1) have r: "deref (NodeGroup_objs s) r = Some (NodeGroup_objs s ! r)"
    by (simp add: deref_def)
  from Cons.prems(2) [rule_format, of 0] obtain v where v: "reply e (rpc_log s) ?c = Inr v"
    by auto
  have valid: "\<forall>r \<in> set rs. r < length (NodeGroup_objs ?s1)"
    using Cons.prems(1) by simp
  have later: "\<forall>i < length rs. \<exists>v.
      reply e (rpc_log ?s1 @ map (call_to ?s1 m) (take i rs)) (call_to ?s1 m (rs ! i)) = Inr v"
  proof (intro allI impI)
    fix i assume "i < length rs"
    with Cons.prems(2) [rule_format, of "Suc i"]
    show "\<exists>v. reply e (rpc_log ?s1 @ map (call_to ?s1 m) (take i rs))
                 (call_to ?s1 m (rs ! i)) = Inr v"
      by simp
  qed
  from r v have "call_all e m s (r # rs) = call_all e m ?s1 rs"
    by (simp add: rpc_def call_to_def)
  also from Cons.IH [OF valid later]
  have "call_all e m ?s1 rs = (Inr (), s\<lparr>rpc_log := rpc_log s @ map (call_to s m) (r # rs)\<rparr>)"
    by simp
  finally show ?case .
qed

lemma call_all_fails:
  assumes "\<forall>r \<in> set rs. r < length (NodeGroup_objs s)"
    and "j < length rs"
    and "\<forall>i < j. \<exists>v.
           reply e (rpc_log s @ map (call_to s m) (take i rs)) (call_to s m (rs ! i)) = Inr v"
    and "reply e (rpc_log s @ map (call_to s m) (take j rs)) (call_to s m (rs ! j)) = Inl msg"
  shows "call_all e m s rs =
           (Inl (RemoteError msg),
            s\<lparr>rpc_log := rpc_log s @ map (call_to s m) (take (Suc j) rs)\<rparr>)"
  using assms
proof (induction rs arbitrary: s j)
  case Nil
  then show ?case by simp
next
  case (Cons r rs)
  let ?c = "call_to s m r"
  let ?s1 = "s\<lparr>rpc_log := rpc_log s @ [?c]\<rparr>"
  from Cons.prems(1) have r: "deref (NodeGroup_objs s) r = Some (NodeGroup_objs s ! r)"
    by (simp add: deref_def)
  show ?case
  proof (cases j)
    case 0
    with Cons.prems(4) have "reply e (rpc_log s) ?c = Inl msg"
      by simp
    with r 0 show ?thesis
      by (simp add: rpc_def call_to_def)
  next
    case (Suc j')
    from Cons.prems(3) [rule_format, of 0] Suc obtain v where
      v: "reply e (rpc_log s) ?c = Inr v"
      by auto
    have valid: "\<forall>r \<in> set rs. r < length (NodeGroup_objs ?s1)"
      using Cons.prems(1) by simp
    have j': "j' < length rs"
      using Cons.prems(2) Suc by simp
    have earlier: "\<forall>i < j'. \<exists>v.
        reply e (rpc_log ?s1 @ map (call_to ?s1 m) (take i rs)) (call_to ?s1 m (rs ! i)) = Inr v"
    proof (intro allI impI)
      fix i assume "i < j'"
      with Cons.prems(3) [rule_format, of "Suc i"] Suc
      show "\<exists>v. reply e (rpc_log ?s1 @ map (call_to ?s1 m) (take i rs))
                   (call_to ?s1 m (rs ! i)) = Inr v"
        by simp
    qed
    have failing: "reply e (rpc_log ?s1 @ map (call_to ?s1 m) (take j' rs))
        (call_to ?s1 m (rs ! j')) = Inl msg"
      using Cons.prems(4) Suc by simp
    from r v have "call_all e m s (r # rs) = call_all e m ?s1 rs"
      by (simp add: rpc_def call_to_def)
    also from Cons.IH [OF valid j' earlier failing]
    have "call_all e m ?s1 rs =
        (Inl (RemoteError msg),
         s\<lparr>rpc_log := rpc_log s @ map (call_to s m) (take (Suc j) (r # rs))\<rparr>)"
      using Suc by simp
    finally show ?thesis .
  qed
qed

text \<open>
  With two registered Nodegroups \<open>ngA\<close> and \<open>ngB\<close> and the agent of \<open>ngA\<close> timing out,
  \<open>start_all_nodes\<close> and \<open>stop_all_nodes\<close> raise the error of the call to \<open>ngA\<close> and never
  issue the call to \<open>ngB\<close>.
\<close>

theorem broadcast_not_independent_counterexample:
  "map fst (nodegroups st_ng2) = [''ngA'', ''ngB''] \<and>
   start_all_nodes env_ngA_down st_ng2 =
     (Inl (RemoteError ''timeout''),
      st_ng2\<lparr>rpc_log := rpc_log st_ng2 @
        [Call (RPCClient ''ngA'' ''tcp://127.0.0.1:5001'') ''start_all_nodes'' [] []]\<rparr>) \<and>
   Call (RPCClient ''ngB'' ''tcp://127.0.0.1:5001'') ''start_all_nodes'' [] []
     \<notin> set (rpc_log (snd (start_all_nodes env_ngA_down st_ng2))) \<and>
   stop_all_nodes env_ngA_down st_ng2 =
     (Inl (RemoteError ''timeout''),
      st_ng2\<lparr>rpc_log := rpc_log st_ng2 @
        [Call (RPCClient ''ngA'' ''tcp://127.0.0.1:5001'') ''stop_all_nodes'' [] []]\<rparr>) \<and>
   Call (RPCClient ''ngB'' ''tcp://127.0.0.1:5001'') ''stop_all_nodes'' [] []
     \<notin> set (rpc_log (snd (stop_all_nodes env_ngA_down st_ng2)))"
  by (simp add: start_all_nodes_def stop_all_nodes_def st_ng2_eq deref_def rpc_def env_ngA_down_def)

text \<open>
  C2 (amended): \<open>start_all_nodes\<close> (and likewise \<open>stop_all_nodes\<close>) issues its remote call
  to the registered Nodegroups one after the other, in dictionary order, and stops at the
  first call that fails.  If every call is answered, the method returns and the log has
  grown by the calls to all the registered Nodegroups.  If the call to the \<open>j\<close>-th
  Nodegroup is the first that fails, the method raises the remote error of that call and
  the log has grown by the calls to the Nodegroups up to and including the \<open>j\<close>-th only:
  the Nodegroups after it are not called.  In both cases nothing but the log of remote
  calls changes.  The hypothesis on the state is that every registered Nodegroup has its
  object in the store, as in every state of a run (\<open>run_store_valid\<close> below).
\<close>

theorem broadcast_stops_at_first_failure:
  assumes valid: "\<forall>ngr \<in> snd ` set (nodegroups s). ngr < length (NodeGroup_objs s)"
    and run: "method = ''start_all_nodes'' \<and> start_all_nodes e s = (res, s') \<or>
         method = ''stop_all_nodes'' \<and> stop_all_nodes e s = (res, s')"
  shows "((\<forall>i < length (nodegroups s). \<exists>v. broadcast_reply e s method i = Inr v) \<longrightarrow>
            res = Inr () \<and>
            s' = s\<lparr>rpc_log := rpc_log s @ broadcast_calls s method\<rparr>) \<and>
         (\<forall>j msg. j < length (nodegroups s) \<and>
            (\<forall>i < j. \<exists>v. broadcast_reply e s method i = Inr v) \<and>
            broadcast_reply e s method j = Inl msg \<longrightarrow>
            res = Inl (RemoteError msg) \<and>
            s' = s\<lparr>rpc_log := rpc_log s @ take (Suc j) (broadcast_calls s method)\<rparr>) \<and>
         (\<exists>k \<le> length (nodegroups s).
            s' = s\<lparr>rpc_log := rpc_log s @ take k (broadcast_calls s method)\<rparr> \<and>
            (res = Inr () \<longrightarrow> k = length (nodegroups s)) \<and>
            (\<forall>x. res = Inl x \<longrightarrow> 0 < k \<and>
               (\<exists>msg. x = RemoteError msg \<and> broadcast_reply e s method (k - 1) = Inl msg)))"
proof -
  let ?rs = "map snd (nodegroups s)"
  from run have run': "call_all e method s ?rs = (res, s')"
    by (auto simp: start_all_nodes_def stop_all_nodes_def)
  from valid have valid': "\<forall>r \<in> set ?rs. r < length (NodeGroup_objs s)"
    by simp
  have rep: "broadcast_reply e s method i =
      reply e (rpc_log s @ map (call_to s method) (take i ?rs)) (call_to s method (?rs ! i))"
    if "i < length (nodegroups s)" for i
    using that by (simp add: broadcast_reply_def broadcast_calls_def take_map)
  have all_ok: "res = Inr () \<and> s' = s\<lparr>rpc_log := rpc_log s @ broadcast_calls s method\<rparr>"
    if ok: "\<forall>i < length (nodegroups s). \<exists>v. broadcast_reply e s method i = Inr v"
  proof -
    have "\<forall>i < length ?rs. \<exists>v.
        reply e (rpc_log s @ map (call_to s method) (take i ?rs))
          (call_to s method (?rs ! i)) = Inr v"
    proof (intro allI impI)
      fix i assume "i < length ?rs"
      then have i: "i < length (nodegroups s)" by simp
      from rep [OF i] ok i
      show "\<exists>v. reply e (rpc_log s @ map (call_to s method) (take i ?rs))
                   (call_to s method (?rs ! i)) = Inr v"
        by metis
    qed
    from call_all_succeeds [OF valid' this] run' show ?thesis
      by (simp add: broadcast_calls_def)
  qed
  have first_failure: "res = Inl (RemoteError msg) \<and>
      s' = s\<lparr>rpc_log := rpc_log s @ take (Suc j) (broadcast_calls s method)\<rparr>"
    if hyp: "j < length (nodegroups s) \<and>
        (\<forall>i < j. \<exists>v. broadcast_reply e s method i = Inr v) \<and>
        broadcast_reply e s method j = Inl msg" for j msg
  proof -
    from hyp have j: "j < length ?rs" by simp
    have "\<forall>i < j. \<exists>v.
        reply e (rpc_log s @ map (call_to s method) (take i ?rs))
          (call_to s method (?rs ! i)) = Inr v"
    proof (intro allI impI)
      fix i assume i: "i < j"
      with hyp have "i < length (nodegroups s)" by simp
      from rep [OF this] hyp i
      show "\<exists>v. reply e (rpc_log s @ map (call_to s method) (take i ?rs))
                   (call_to s method (?rs ! i)) = Inr v"
        by metis
    qed
    moreover from hyp rep [of j]
    have "reply e (rpc_log s @ map (call_to s method) (take j ?rs))
        (call_to s method (?rs ! j)) = Inl msg"
      by metis
    ultimately have "call_all e method s ?rs =
        (Inl (RemoteError msg),
         s\<lparr>rpc_log := rpc_log s @ map (call_to s method) (take (Suc j) ?rs)\<rparr>)"
      by (rule call_all_fails [OF valid' j])
    with run' show ?thesis
      by (simp add: broadcast_calls_def take_map)
  qed
  from call_all_outcome [OF valid' run'] obtain k where
    k: "k \<le> length ?rs"
    and s': "s' = s\<lparr>rpc_log := rpc_log s @ map (call_to s method) (take k ?rs)\<rparr>"
    and ok: "res = Inr () \<longrightarrow> k = length ?rs"
    and err: "\<forall>x. res = Inl x \<longrightarrow> 0 < k \<and>
              (\<exists>msg. x = RemoteError msg \<and>
                 reply e (rpc_log s @ map (call_to s method) (take (k - 1) ?rs))
                   (call_to s method (?rs ! (k - 1))) = Inl msg)"
    by blast
  have prefix: "\<exists>k \<le> length (nodegroups s).
            s' = s\<lparr>rpc_log := rpc_log s @ take k (broadcast_calls s method)\<rparr> \<and>
            (res = Inr () \<longrightarrow> k = length (nodegroups s)) \<and>
            (\<forall>x. res = Inl x \<longrightarrow> 0 < k \<and>
               (\<exists>msg. x = RemoteError msg \<and> broadcast_reply e s method (k - 1) = Inl msg))"
  proof (intro exI [of _ k] conjI allI impI)
    show "k \<le> length (nodegroups s)" using k by simp
    show "s' = s\<lparr>rpc_log := rpc_log s @ take k (broadcast_calls s method)\<rparr>"
      using s' by (simp add: broadcast_calls_def take_map)
    show "k = length (nodegroups s)" if "res = Inr ()" using that ok by simp
    show "0 < k" if "res = Inl x" for x using that err by blast
    show "\<exists>msg. x = RemoteError msg \<and> broadcast_reply e s method (k - 1) = Inl msg"
      if "res = Inl x" for x
    proof -
      from err that obtain msg where "0 < k" "x = RemoteError msg"
        "reply e (rpc_log s @ map (call_to s method) (take (k - 1) ?rs))
                   (call_to s method (?rs ! (k - 1))) = Inl msg"
        by blast
      with k show ?thesis
        by (simp add: rep)
    qed
  qed
  from all_ok first_failure prefix show ?thesis
    by blast
qed

text \<open>
  Both outcomes on the state with \<open>ngA\<close> and \<open>ngB\<close>: every agent answering, and the agent
  of \<open>ngA\<close> timing out.
\<close>

theorem broadcast_stops_at_first_failure_witness:
  "start_all_nodes env_ok st_ng2 =
     (Inr (),
      st_ng2\<lparr>rpc_log := rpc_log st_ng2 @
        [Call (RPCClient ''ngA'' ''tcp://127.0.0.1:5001'') ''start_all_nodes'' [] [],
         Call (RPCClient ''ngB'' ''tcp://127.0.0.1:5001'') ''start_all_nodes'' [] []]\<rparr>) \<and>
   stop_all_nodes env_ngA_down st_ng2 =
     (Inl (RemoteError ''timeout''),
      st_ng2\<lparr>rpc_log := rpc_log st_ng2 @
        [Call (RPCClient ''ngA'' ''tcp://127.0.0.1:5001'') ''stop_all_nodes'' [] []]\<rparr>)"
proof -
  have valid: "\<forall>ngr \<in> snd ` set (nodegroups st_ng2). ngr < length (NodeGroup_objs st_ng2)"
    by (simp add: st_ng2_eq)
  have len: "length (nodegroups st_ng2) = 2"
    by (simp add: st_ng2_eq)
  have starts: "broadcast_calls st_ng2 ''start_all_nodes'' =
     [Call (RPCClient ''ngA'' ''tcp://127.0.0.1:5001'') ''start_all_nodes'' [] [],
      Call (RPCClient ''ngB'' ''tcp://127.0.0.1:5001'') ''start_all_nodes'' [] []]"
    and stops: "broadcast_calls st_ng2 ''stop_all_nodes'' =
     [Call (RPCClient ''ngA'' ''tcp://127.0.0.1:5001'') ''stop_all_nodes'' [] [],
      Call (RPCClient ''ngB'' ''tcp://127.0.0.1:5001'') ''stop_all_nodes'' [] []]"
    by (simp_all add: broadcast_calls_def call_to_def st_ng2_eq)
  have answered: "\<forall>i < length (nodegroups st_ng2).
      \<exists>v. broadcast_reply env_ok st_ng2 ''start_all_nodes'' i = Inr v"
    by (simp add: broadcast_reply_def env_ok_def)
  have timed_out: "0 < length (nodegroups st_ng2) \<and>
      (\<forall>i < 0. \<exists>v. broadcast_reply env_ngA_down st_ng2 ''stop_all_nodes'' i = Inr v) \<and>
      broadcast_reply env_ngA_down st_ng2 ''stop_all_nodes'' 0 = Inl ''timeout''"
    by (simp add: len broadcast_reply_def stops env_ngA_down_def)
  have run1: "''start_all_nodes'' = ''start_all_nodes'' \<and>
      start_all_nodes env_ok st_ng2 =
        (fst (start_all_nodes env_ok st_ng2), snd (start_all_nodes env_ok st_ng2)) \<or>
      ''start_all_nodes'' = ''stop_all_nodes'' \<and>
      stop_all_nodes env_ok st_ng2 =
        (fst (start_all_nodes env_ok st_ng2), snd (start_all_nodes env_ok st_ng2))"
    by simp
  have run2: "''stop_all_nodes'' = ''start_all_nodes'' \<and>
      start_all_nodes env_ngA_down st_ng2 =
        (fst (stop_all_nodes env_ngA_down st_ng2), snd (stop_all_nodes env_ngA_down st_ng2)) \<or>
      ''stop_all_nodes'' = ''stop_all_nodes'' \<and>
      stop_all_nodes env_ngA_down st_ng2 =
        (fst (stop_all_nodes env_ngA_down st_ng2), snd (stop_all_nodes env_ngA_down st_ng2))"
    by simp
  from broadcast_stops_at_first_failure [OF valid run1] answered
  have "fst (start_all_nodes env_ok st_ng2) = Inr () \<and>
      snd (start_all_nodes env_ok st_ng2) =
        st_ng2\<lparr>rpc_log := rpc_log st_ng2 @ broadcast_calls st_ng2 ''start_all_nodes''\<rparr>"
    by blast
  then have a: "start_all_nodes env_ok st_ng2 =
     (Inr (),
      st_ng2\<lparr>rpc_log := rpc_log st_ng2 @
        [Call (RPCClient ''ngA'' ''tcp://127.0.0.1:5001'') ''start_all_nodes'' [] [],
         Call (RPCClient ''ngB'' ''tcp://127.0.0.1:5001'') ''start_all_nodes'' [] []]\<rparr>)"
    unfolding starts by (metis prod.collapse)
  from broadcast_stops_at_first_failure [OF valid run2] timed_out
  have "fst (stop_all_nodes env_ngA_down st_ng2) = Inl (RemoteError ''timeout'') \<and>
      snd (stop_all_nodes env_ngA_down st_ng2) =
        st_ng2\<lparr>rpc_log := rpc_log st_ng2 @
          take (Suc 0) (broadcast_calls st_ng2 ''stop_all_nodes'')\<rparr>"
    by blast
  then have b: "stop_all_nodes env_ngA_down st_ng2 =
     (Inl (RemoteError ''timeout''),
      st_ng2\<lparr>rpc_log := rpc_log st_ng2 @
        [Call (RPCClient ''ngA'' ''tcp://127.0.0.1:5001'') ''stop_all_nodes'' [] []]\<rparr>)"
    unfolding stops by (simp add: prod_eq_iff)
  from a b show ?thesis by (rule conjI)
qed

section \<open>Decimal rendering\<close>

lemma digit_char_0: "digit_char 0 = CHR ''0''"
  unfolding digit_char_def by code_simp

lemma digits_0: "digits 0 = ''0''"
  by (simp add: digits.simps digit_char_0)

lemma fmt_d_0: "fmt_d 0 = ''0''"
  by (simp add: fmt_d_def digits_0)

lemma digit_char_inj: "a < 10 \<Longrightarrow> b < 10 \<Longrightarrow> digit_char a = digit_char b \<Longrightarrow> a = b"
proof -
  assume a: "a < 10" and b: "b < 10" and eq: "digit_char a = digit_char b"
  from eq have "(of_char (digit_char a) :: nat) = of_char (digit_char b)"
    by simp
  then have "(48 + a) mod 256 = (48 + b) mod 256"
    by (simp add: digit_char_def)
  with a b show ?thesis by simp
qed

lemma digit_char_not_minus: "d < 10 \<Longrightarrow> digit_char d \<noteq> CHR ''-''"
proof
  assume d: "d < 10" and eq: "digit_char d = CHR ''-''"
  from eq have "(of_char (digit_char d) :: nat) = of_char CHR ''-''"
    by simp
  then have "(48 + d) mod 256 = 45"
    by (simp add: digit_char_def)
  with d show False by simp
qed

lemma digits_not_Nil: "digits n \<noteq> []"
  by (subst digits.simps) simp

lemma digits_no_minus: "CHR ''-'' \<notin> set (digits n)"
proof (induction n rule: digits.induct)
  case (1 n)
  show ?case
  proof (cases "n < 10")
    case True
    then show ?thesis
      using digit_char_not_minus [of n] by (subst digits.simps) auto
  next
    case False
    then show ?thesis
      using 1 digit_char_not_minus [of "n mod 10"] by (subst digits.simps) auto
  qed
qed

lemma digits_inj: "digits n = digits m \<Longrightarrow> n = m"
proof (induction n arbitrary: m rule: digits.induct)
  case (1 n)
  show ?case
  proof (cases "n < 10")
    case n: True
    show ?thesis
    proof (cases "m < 10")
      case True
      with n 1(2) show ?thesis
        by (simp add: digits.simps [of n] digits.simps [of m] digit_char_inj)
    next
      case False
      with n 1(2) digits_not_Nil [of "m div 10"] show ?thesis
        by (simp add: digits.simps [of n] digits.simps [of m])
    qed
  next
    case n: False
    show ?thesis
    proof (cases "m < 10")
      case True
      with n 1(2) digits_not_Nil [of "n div 10"] show ?thesis
        by (simp add: digits.simps [of n] digits.simps [of m])
    next
      case False
      with n 1(2) have "digits (n div 10) = digits (m div 10)"
        and "digit_char (n mod 10) = digit_char (m mod 10)"
        by (simp_all add: digits.simps [of n] digits.simps [of m])
      with n 1(1) have "n div 10 = m div 10" and "n mod 10 = m mod 10"
        by (auto intro: digit_char_inj)
      then show ?thesis
        by (metis div_mult_mod_eq)
    qed
  qed
qed

lemma fmt_d_inj: "fmt_d i = fmt_d j \<Longrightarrow> i = j"
proof -
  assume eq: "fmt_d i = fmt_d j"
  have hd: "hd (digits n) \<noteq> CHR ''-''" for n
    using digits_no_minus [of n] digits_not_Nil [of n] by (cases "digits n") auto
  show ?thesis
  proof (cases "i < 0")
    case i: True
    show ?thesis
    proof (cases "j < 0")
      case True
      with i eq have "nat (- i) = nat (- j)"
        by (simp add: fmt_d_def digits_inj)
      with i True show ?thesis by simp
    next
      case False
      with i eq have "hd (digits (nat j)) = CHR ''-''"
        by (simp add: fmt_d_def) (metis list.sel(1))
      with hd [of "nat j"] show ?thesis by simp
    qed
  next
    case i: False
    show ?thesis
    proof (cases "j < 0")
      case True
      with i eq have "hd (digits (nat i)) = CHR ''-''"
        by (simp add: fmt_d_def)
      with hd [of "nat i"] show ?thesis by simp
    next
      case False
      with i eq have "nat i = nat j"
        by (simp add: fmt_d_def digits_inj)
      with i False show ?thesis by simp
    qed
  qed
qed

section \<open>What a request can change\<close>

lemma call_all_state:
  "call_all e method s rs = (res, s') \<Longrightarrow> \<exists>l. s' = s\<lparr>rpc_log := l\<rparr>"
proof (induction rs arbitrary: s)
  case Nil
  then show ?case
    by (auto intro: exI [of _ "rpc_log s"])
next
  case (Cons r rs)
  show ?case
  proof (cases "deref (NodeGroup_objs s) r")
    case None
    with Cons.prems show ?thesis
      by (auto intro: exI [of _ "rpc_log s"])
  next
    case (Some ng)
    let ?c = "Call (ng_client ng) method [] []"
    show ?thesis
    proof (cases "reply e (rpc_log s) ?c")
      case (Inl msg)
      with Some Cons.prems show ?thesis
        by (auto simp: rpc_def)
    next
      case (Inr v)
      with Some Cons.prems
      have "call_all e method (s\<lparr>rpc_log := rpc_log s @ [?c]\<rparr>) rs = (res, s')"
        by (simp add: rpc_def)
      from Cons.IH [OF this] show ?thesis
        by auto
    qed
  qed
qed


lemma returning_snd: "snd (returning f p) = snd p"
  by (cases p) (auto simp: returning_def split: sum.splits)

lemma call_all_snd: "\<exists>l. snd (call_all e m s rs) = s\<lparr>rpc_log := l\<rparr>"
  using call_all_state [of e m s rs "fst (call_all e m s rs)" "snd (call_all e m s rs)"]
  by simp

lemma exec_next_nodegroup_name:
  "priv_next_nodegroup_name (snd (exec e s op)) =
     priv_next_nodegroup_name s + (if op = Suggest_nodegroup_name then 1 else 0)"
proof (cases op)
  case Start_all_nodes
  with call_all_snd [of e "''start_all_nodes''" s "map snd (nodegroups s)"] show ?thesis
    by (auto simp: returning_snd start_all_nodes_def)
next
  case Stop_all_nodes
  with call_all_snd [of e "''stop_all_nodes''" s "map snd (nodegroups s)"] show ?thesis
    by (auto simp: returning_snd stop_all_nodes_def)
qed (auto simp: returning_snd connect_host_def disconnect_host_def default_host_def Let_def
      close_host_def close_def create_nodegroup_def create_node_def control_node_def
      delete_node_def suggest_nodegroup_name_def suggest_node_name_def rpc_def
      split: option.splits sum.splits prod.splits)

lemma exec_next_node_name:
  "priv_next_node_name (snd (exec e s op)) =
     priv_next_node_name s + (if op = Suggest_node_name then 1 else 0)"
proof (cases op)
  case Start_all_nodes
  with call_all_snd [of e "''start_all_nodes''" s "map snd (nodegroups s)"] show ?thesis
    by (auto simp: returning_snd start_all_nodes_def)
next
  case Stop_all_nodes
  with call_all_snd [of e "''stop_all_nodes''" s "map snd (nodegroups s)"] show ?thesis
    by (auto simp: returning_snd stop_all_nodes_def)
qed (auto simp: returning_snd connect_host_def disconnect_host_def default_host_def Let_def
      close_host_def close_def create_nodegroup_def create_node_def control_node_def
      delete_node_def suggest_nodegroup_name_def suggest_node_name_def rpc_def
      split: option.splits sum.splits prod.splits)

lemma answers_Nil: "answers op [] rs = []"
  by (simp add: answers_def)

lemma answers_Cons:
  "answers op ((e, op') # reqs) (r # rs) =
     (if op' = op then r # answers op reqs rs else answers op reqs rs)"
  by (simp add: answers_def)

lemma run_Cons:
  "fst (run s ((e, op) # reqs)) = fst (exec e s op) # fst (run (snd (exec e s op)) reqs)"
  by (simp split: prod.splits)

lemma run_suggest_nodegroup_name:
  "answers Suggest_nodegroup_name reqs (fst (run s reqs)) =
     map (\<lambda>i. Inr (Str (''nodegroup-'' @ fmt_d (priv_next_nodegroup_name s + int i))))
       [0..<length (filter (\<lambda>req. snd req = Suggest_nodegroup_name) reqs)]"
proof (induction reqs arbitrary: s)
  case Nil
  then show ?case by (simp add: answers_Nil)
next
  case (Cons req reqs)
  obtain e op where req: "req = (e, op)" by (cases req)
  show ?case
  proof (cases "op = Suggest_nodegroup_name")
    case True
    then show ?thesis
      unfolding req run_Cons answers_Cons Cons.IH
      by (simp add: suggest_nodegroup_name_def map_upt_Suc add.assoc del: upt_Suc)
  next
    case False
    then show ?thesis
      unfolding req run_Cons answers_Cons Cons.IH
      by (simp add: exec_next_nodegroup_name)
  qed
qed

lemma run_suggest_node_name:
  "answers Suggest_node_name reqs (fst (run s reqs)) =
     map (\<lambda>i. Inr (Str (''node-'' @ fmt_d (priv_next_node_name s + int i))))
       [0..<length (filter (\<lambda>req. snd req = Suggest_node_name) reqs)]"
proof (induction reqs arbitrary: s)
  case Nil
  then show ?case by (simp add: answers_Nil)
next
  case (Cons req reqs)
  obtain e op where req: "req = (e, op)" by (cases req)
  show ?case
  proof (cases "op = Suggest_node_name")
    case True
    then show ?thesis
      unfolding req run_Cons answers_Cons Cons.IH
      by (simp add: suggest_node_name_def map_upt_Suc add.assoc del: upt_Suc)
  next
    case False
    then show ?thesis
      unfolding req run_Cons answers_Cons Cons.IH
      by (simp add: exec_next_node_name)
  qed
qed

lemma distinct_numbered:
  "distinct (map (\<lambda>i. Inr (Str (p @ fmt_d (c + int i))) :: exn + result) [0..<n])"
  by (auto simp: distinct_map inj_on_def dest: fmt_d_inj)

section \<open>Suggested names\<close>

lemma st_own_eq:
  "st_own =
     \<lparr>hosts = [(''h1'', 0)], nodegroups = [(''nodegroup-0'', 0)], nodes = [(''node-0'', 0)],
      priv_default_host = None, priv_next_nodegroup_name = 0,
      priv_next_node_name = 0, priv_addr = ''tcp://127.0.0.1:4000'',
      Host_objs =
        [\<lparr>h_rpc_address = ''tcp://127.0.0.1:5000'', h_rpc_name = ''h1'',
           h_client = RPCClient ''h1'' ''tcp://127.0.0.1:5000'',
           h_nodegroups = [(''nodegroup-0'', 0)], h_rpc_hostname = ''127.0.0.1''\<rparr>],
      NodeGroup_objs =
        [\<lparr>ng_host = 0, ng_rpc_address = ''tcp://127.0.0.1:5001'',
           ng_rpc_name = ''nodegroup-0'',
           ng_client = RPCClient ''nodegroup-0'' ''tcp://127.0.0.1:5001'',
           ng_nodes = [(''node-0'', 0)]\<rparr>],
      Node_objs =
        [\<lparr>n_nodegroup = 0, n_name = ''node-0'', n_classname = ''Acquirer'', n_outputs = []\<rparr>],
      rpc_log = [Call (RPCClient ''h1'' ''tcp://127.0.0.1:5000'') ''create_nodegroup''
                   [''nodegroup-0'', ''tcp://127.0.0.1:*''] [],
                 Call (RPCClient ''nodegroup-0'' ''tcp://127.0.0.1:5001'') ''create_node''
                   [''node-0'', ''Acquirer''] []],
      spawned = [], stopped = [], server_closed = False\<rparr>"
  by (simp add: st_own_def st_host_eq create_nodegroup_def create_node_def deref_def env_ok_def
      new_NodeGroup_def new_Node_def rpc_def)

lemma run_snd_Cons: "snd (run s ((e, op) # reqs)) = snd (run (snd (exec e s op)) reqs)"
  by (simp split: prod.splits)

lemma st_own_reached:
  "snd (run (init ''tcp://127.0.0.1:4000'')
          [(env_ok, Connect_host ''h1'' ''tcp://127.0.0.1:5000''),
           (env_ok, Create_nodegroup ''h1'' ''nodegroup-0''),
           (env_ok, Create_node ''nodegroup-0'' ''node-0'' ''Acquirer'' [])]) = st_own"
  unfolding run_snd_Cons
  by (simp add: st_own_def st_host_def returning_snd)

text \<open>
  The suggestion takes no account of the registry: in the state reached by connecting a
  Host, creating a Nodegroup named \<open>nodegroup-0\<close> and a Node named \<open>node-0\<close> in it,
  \<open>suggest_nodegroup_name\<close> returns \<open>nodegroup-0\<close> and \<open>suggest_node_name\<close> returns
  \<open>node-0\<close>, both of which denote registered entities.
\<close>

theorem suggestion_not_fresh_counterexample:
  "snd (run (init ''tcp://127.0.0.1:4000'')
          [(env_ok, Connect_host ''h1'' ''tcp://127.0.0.1:5000''),
           (env_ok, Create_nodegroup ''h1'' ''nodegroup-0''),
           (env_ok, Create_node ''nodegroup-0'' ''node-0'' ''Acquirer'' [])]) = st_own \<and>
   fst (suggest_nodegroup_name st_own) = ''nodegroup-0'' \<and>
   list_nodegroups st_own None = Inr [''nodegroup-0''] \<and>
   fst (suggest_node_name st_own) = ''node-0'' \<and>
   list_nodes st_own None = Inr [''node-0'']"
proof -
  have "fst (suggest_nodegroup_name st_own) = ''nodegroup-0''"
    and "list_nodegroups st_own None = Inr [''nodegroup-0'']"
    and "fst (suggest_node_name st_own) = ''node-0''"
    and "list_nodes st_own None = Inr [''node-0'']"
    by (simp_all add: st_own_eq suggest_nodegroup_name_def suggest_node_name_def fmt_d_0
        list_nodegroups_def list_nodes_def)
  with st_own_reached show ?thesis
    by (intro conjI)
qed

text \<open>
  C8 (amended): \<open>suggest_nodegroup_name\<close> returns \<open>nodegroup-<k>\<close> and
  \<open>suggest_node_name\<close> returns \<open>node-<k>\<close>, \<open>k\<close> being the current value of the counter of
  its kind.  In any run of requests from any state, whatever the other requests and the
  outside world do, the answers to the \<open>n\<close> suggestion requests of one kind are the
  names numbered \<open>c, c + 1, ..., c + n - 1\<close> in this order, \<open>c\<close> being the counter at
  the start: strictly increasing numbers and pairwise distinct names, so no suggestion
  repeats an earlier suggestion.  (Nothing is said about the names callers registered.)
\<close>

theorem suggestions_numbered:
  "fst (suggest_nodegroup_name s) = ''nodegroup-'' @ fmt_d (priv_next_nodegroup_name s) \<and>
   fst (suggest_node_name s) = ''node-'' @ fmt_d (priv_next_node_name s) \<and>
   answers Suggest_nodegroup_name reqs (fst (run s reqs)) =
     map (\<lambda>i. Inr (Str (''nodegroup-'' @ fmt_d (priv_next_nodegroup_name s + int i))))
       [0..<length (filter (\<lambda>req. snd req = Suggest_nodegroup_name) reqs)] \<and>
   distinct (answers Suggest_nodegroup_name reqs (fst (run s reqs))) \<and>
   answers Suggest_node_name reqs (fst (run s reqs)) =
     map (\<lambda>i. Inr (Str (''node-'' @ fmt_d (priv_next_node_name s + int i))))
       [0..<length (filter (\<lambda>req. snd req = Suggest_node_name) reqs)] \<and>
   distinct (answers Suggest_node_name reqs (fst (run s reqs)))"
  unfolding run_suggest_nodegroup_name run_suggest_node_name
  using distinct_numbered [of "''nodegroup-''" "priv_next_nodegroup_name s"]
    distinct_numbered [of "''node-''" "priv_next_node_name s"]
  by (simp add: suggest_nodegroup_name_def suggest_node_name_def)

lemma fmt_d_1: "fmt_d 1 = ''1''"
  unfolding fmt_d_def digit_char_def by (simp add: digits.simps digit_char_def) code_simp

theorem suggestions_numbered_witness:
  "answers Suggest_nodegroup_name
     [(env_ok, Suggest_nodegroup_name), (env_ok, Create_nodegroup ''h1'' ''nodegroup-0''),
      (env_down, Suggest_nodegroup_name), (env_ok, Suggest_node_name)]
     (fst (run st_host
        [(env_ok, Suggest_nodegroup_name), (env_ok, Create_nodegroup ''h1'' ''nodegroup-0''),
         (env_down, Suggest_nodegroup_name), (env_ok, Suggest_node_name)])) =
     [Inr (Str ''nodegroup-0''), Inr (Str ''nodegroup-1'')] \<and>
   answers Suggest_node_name
     [(env_ok, Suggest_nodegroup_name), (env_ok, Create_nodegroup ''h1'' ''nodegroup-0''),
      (env_down, Suggest_nodegroup_name), (env_ok, Suggest_node_name)]
     (fst (run st_host
        [(env_ok, Suggest_nodegroup_name), (env_ok, Create_nodegroup ''h1'' ''nodegroup-0''),
         (env_down, Suggest_nodegroup_name), (env_ok, Suggest_node_name)])) =
     [Inr (Str ''node-0'')]"
proof -
  have c: "priv_next_nodegroup_name st_host = 0" "priv_next_node_name st_host = 0"
    by (simp_all add: st_host_eq)
  have u: "[0..<2] = [0, Suc 0]"
    by (simp add: upt_rec)
  from suggestions_numbered [of st_host
      "[(env_ok, Suggest_nodegroup_name), (env_ok, Create_nodegroup ''h1'' ''nodegroup-0''),
        (env_down, Suggest_nodegroup_name), (env_ok, Suggest_node_name)]"]
  show ?thesis
    by (simp add: c u fmt_d_0 fmt_d_1)
qed

section \<open>The registry invariant\<close>

text \<open>The lookup form of the links implies the consistency of the registry.\<close>

lemma linked_consistent:
  assumes "linked s"
  shows "dicts_ok s \<and> consistent s"
proof -
  from assms have k: "keys_ok s" and a: "ng_linked s" and b: "host_linked s"
    and c: "node_linked s" and d: "owner_linked s"
    by (simp_all add: linked_def)
  from k have dh: "distinct (map fst (hosts s))" and dg: "distinct (map fst (nodegroups s))"
    and dn: "distinct (map fst (nodes s))"
    by (simp_all add: keys_ok_def)
  have 1: "dicts_ok s"
    unfolding dicts_ok_def
    using dh dg dn b d
    by (fastforce simp: host_linked_def owner_linked_def)
  have 2: "\<forall>(name, ngr) \<in> set (nodegroups s).
        case deref (NodeGroup_objs s) ngr of
          None \<Rightarrow> False
        | Some ng \<Rightarrow>
            ng_host ng \<in> snd ` set (hosts s) \<and>
            (case deref (Host_objs s) (ng_host ng) of
               None \<Rightarrow> False
             | Some h \<Rightarrow> (name, ngr) \<in> set (h_nodegroups h))"
  proof (clarify)
    fix name ngr assume "(name, ngr) \<in> set (nodegroups s)"
    with dg have "map_of (nodegroups s) name = Some ngr" by simp
    with a obtain ng h hn where "deref (NodeGroup_objs s) ngr = Some ng"
      "map_of (hosts s) hn = Some (ng_host ng)"
      "deref (Host_objs s) (ng_host ng) = Some h"
      "map_of (h_nodegroups h) name = Some ngr"
      unfolding ng_linked_def by blast
    then show "case deref (NodeGroup_objs s) ngr of
          None \<Rightarrow> False
        | Some ng \<Rightarrow>
            ng_host ng \<in> snd ` set (hosts s) \<and>
            (case deref (Host_objs s) (ng_host ng) of
               None \<Rightarrow> False
             | Some h \<Rightarrow> (name, ngr) \<in> set (h_nodegroups h))"
      by (force dest: map_of_SomeD)
  qed
  have 3: "\<forall>(hn, hr) \<in> set (hosts s).
        case deref (Host_objs s) hr of
          None \<Rightarrow> False
        | Some h \<Rightarrow>
            (\<forall>(name, ngr) \<in> set (h_nodegroups h).
               (name, ngr) \<in> set (nodegroups s) \<and>
               (case deref (NodeGroup_objs s) ngr of
                  None \<Rightarrow> False
                | Some ng \<Rightarrow> ng_host ng = hr))"
  proof (clarify)
    fix hn hr assume "(hn, hr) \<in> set (hosts s)"
    with dh have "map_of (hosts s) hn = Some hr" by simp
    with b obtain h where h: "deref (Host_objs s) hr = Some h"
      "distinct (map fst (h_nodegroups h))"
      "\<forall>name ngr. map_of (h_nodegroups h) name = Some ngr \<longrightarrow>
              map_of (nodegroups s) name = Some ngr \<and>
              (\<exists>ng. deref (NodeGroup_objs s) ngr = Some ng \<and> ng_host ng = hr)"
      unfolding host_linked_def by blast
    then show "case deref (Host_objs s) hr of
          None \<Rightarrow> False
        | Some h \<Rightarrow>
            (\<forall>(name, ngr) \<in> set (h_nodegroups h).
               (name, ngr) \<in> set (nodegroups s) \<and>
               (case deref (NodeGroup_objs s) ngr of
                  None \<Rightarrow> False
                | Some ng \<Rightarrow> ng_host ng = hr))"
      by (fastforce dest: map_of_SomeD)
  qed
  have 4: "\<forall>(name, nr) \<in> set (nodes s).
        case deref (Node_objs s) nr of
          None \<Rightarrow> False
        | Some node \<Rightarrow>
            n_nodegroup node \<in> snd ` set (nodegroups s) \<and>
            (case deref (NodeGroup_objs s) (n_nodegroup node) of
               None \<Rightarrow> False
             | Some ng \<Rightarrow> (name, nr) \<in> set (ng_nodes ng))"
  proof (clarify)
    fix name nr assume "(name, nr) \<in> set (nodes s)"
    with dn have "map_of (nodes s) name = Some nr" by simp
    with c obtain node ng gn where "deref (Node_objs s) nr = Some node"
      "map_of (nodegroups s) gn = Some (n_nodegroup node)"
      "deref (NodeGroup_objs s) (n_nodegroup node) = Some ng"
      "map_of (ng_nodes ng) name = Some nr"
      unfolding node_linked_def by blast
    then show "case deref (Node_objs s) nr of
          None \<Rightarrow> False
        | Some node \<Rightarrow>
            n_nodegroup node \<in> snd ` set (nodegroups s) \<and>
            (case deref (NodeGroup_objs s) (n_nodegroup node) of
               None \<Rightarrow> False
             | Some ng \<Rightarrow> (name, nr) \<in> set (ng_nodes ng))"
      by (force dest: map_of_SomeD)
  qed
  have 5: "\<forall>(gn, ngr) \<in> set (nodegroups s).
        case deref (NodeGroup_objs s) ngr of
          None \<Rightarrow> False
        | Some ng \<Rightarrow>
            (\<forall>(name, nr) \<in> set (ng_nodes ng).
               (name, nr) \<in> set (nodes s) \<and>
               (case deref (Node_objs s) nr of
                  None \<Rightarrow> False
                | Some node \<Rightarrow> n_nodegroup node = ngr))"
  proof (clarify)
    fix gn ngr assume "(gn, ngr) \<in> set (nodegroups s)"
    with dg have "map_of (nodegroups s) gn = Some ngr" by simp
    with d obtain ng where "deref (NodeGroup_objs s) ngr = Some ng"
      "distinct (map fst (ng_nodes ng))"
      "\<forall>name nr. map_of (ng_nodes ng) name = Some nr \<longrightarrow>
              map_of (nodes s) name = Some nr \<and>
              (\<exists>node. deref (Node_objs s) nr = Some node \<and> n_nodegroup node = ngr)"
      unfolding owner_linked_def by blast
    then show "case deref (NodeGroup_objs s) ngr of
          None \<Rightarrow> False
        | Some ng \<Rightarrow>
            (\<forall>(name, nr) \<in> set (ng_nodes ng).
               (name, nr) \<in> set (nodes s) \<and>
               (case deref (Node_objs s) nr of
                  None \<Rightarrow> False
                | Some node \<Rightarrow> n_nodegroup node = ngr))"
      by (fastforce dest: map_of_SomeD)
  qed
  from 1 2 3 4 5 show ?thesis
    unfolding consistent_def by blast
qed

subsection \<open>The initial state and the fields outside the registry\<close>

lemmas link_defs = linked_def keys_ok_def ng_linked_def host_linked_def node_linked_def
  owner_linked_def

lemma linked_init: "linked (init addr)"
  by (simp add: link_defs init_def)

lemma linked_fields:
  "linked (s\<lparr>rpc_log := l\<rparr>) = linked s"
  "linked (s\<lparr>spawned := sp\<rparr>) = linked s"
  "linked (s\<lparr>stopped := st\<rparr>) = linked s"
  "linked (s\<lparr>server_closed := b\<rparr>) = linked s"
  "linked (s\<lparr>priv_default_host := p\<rparr>) = linked s"
  "linked (s\<lparr>priv_next_nodegroup_name := i\<rparr>) = linked s"
  "linked (s\<lparr>priv_next_node_name := j\<rparr>) = linked s"
  by (simp_all add: link_defs)

lemma deref_valid: "deref objs r = Some x \<Longrightarrow> r < length objs"
  by (simp add: deref_Some_iff)

lemma linked_connect_host:
  assumes "linked s"
  shows "linked (connect_host s name addr)"
proof (cases "map_of (hosts s) name = None")
  case False
  with assms show ?thesis by (auto simp: connect_host_def)
next
  case fresh: True
  let ?s' = "s\<lparr>Host_objs := Host_objs s @ [new_Host name addr],
             hosts := AList.update name (length (Host_objs s)) (hosts s)\<rparr>"
  from assms have k: "keys_ok s" and a: "ng_linked s" and b: "host_linked s"
    and c: "node_linked s" and d: "owner_linked s"
    by (simp_all add: linked_def)
  have k': "keys_ok ?s'"
    using k by (simp add: keys_ok_def distinct_update)
  have a': "ng_linked ?s'"
    unfolding ng_linked_def
  proof (intro allI impI)
    fix n ngr assume "map_of (nodegroups ?s') n = Some ngr"
    then have "map_of (nodegroups s) n = Some ngr" by simp
    with a obtain ng h hn where ng: "deref (NodeGroup_objs s) ngr = Some ng"
      and hn: "map_of (hosts s) hn = Some (ng_host ng)"
      and h: "deref (Host_objs s) (ng_host ng) = Some h"
      and m: "map_of (h_nodegroups h) n = Some ngr"
      unfolding ng_linked_def by blast
    from hn fresh have "hn \<noteq> name" by auto
    with hn have "map_of (hosts ?s') hn = Some (ng_host ng)"
      by (simp add: update_conv')
    moreover from h have "deref (Host_objs ?s') (ng_host ng) = Some h"
      by (simp add: deref_append deref_Some_iff)
    ultimately show "\<exists>ng h hn. deref (NodeGroup_objs ?s') ngr = Some ng \<and>
           map_of (hosts ?s') hn = Some (ng_host ng) \<and>
           deref (Host_objs ?s') (ng_host ng) = Some h \<and>
           map_of (h_nodegroups h) n = Some ngr"
      using ng m by auto
  qed
  have b': "host_linked ?s'"
    unfolding host_linked_def
  proof (intro allI impI)
    fix hn hr assume hyp: "map_of (hosts ?s') hn = Some hr"
    show "\<exists>h. deref (Host_objs ?s') hr = Some h \<and> distinct (map fst (h_nodegroups h)) \<and>
           (\<forall>n ngr. map_of (h_nodegroups h) n = Some ngr \<longrightarrow>
              map_of (nodegroups ?s') n = Some ngr \<and>
              (\<exists>ng. deref (NodeGroup_objs ?s') ngr = Some ng \<and> ng_host ng = hr))"
    proof (cases "hn = name")
      case True
      with hyp have "hr = length (Host_objs s)"
        by (simp add: update_conv')
      then show ?thesis
        by (simp add: deref_append new_Host_def)
    next
      case False
      with hyp have "map_of (hosts s) hn = Some hr"
        by (simp add: update_conv')
      with b obtain h where h: "deref (Host_objs s) hr = Some h"
        "distinct (map fst (h_nodegroups h))"
        "\<forall>n ngr. map_of (h_nodegroups h) n = Some ngr \<longrightarrow>
              map_of (nodegroups s) n = Some ngr \<and>
              (\<exists>ng. deref (NodeGroup_objs s) ngr = Some ng \<and> ng_host ng = hr)"
        unfolding host_linked_def by blast
      from h(1) have "deref (Host_objs ?s') hr = Some h"
        by (simp add: deref_append deref_Some_iff)
      with h(2,3) show ?thesis by simp
    qed
  qed
  have c': "node_linked ?s'"
    using c by (simp add: node_linked_def)
  have d': "owner_linked ?s'"
    using d by (simp add: owner_linked_def)
  from k' a' b' c' d' fresh show ?thesis
    by (simp add: connect_host_def linked_def)
qed

subsection \<open>Registering a Nodegroup\<close>

lemma linked_add_nodegroup:
  assumes l: "linked s"
    and fresh: "map_of (nodegroups s) name = None"
    and host: "map_of (hosts s) host = Some hr"
    and obj: "deref (Host_objs s) hr = Some h"
  shows "linked (s\<lparr>NodeGroup_objs := NodeGroup_objs s @ [new_NodeGroup hr name addr'],
                   Host_objs := (Host_objs s)
                     [hr := h\<lparr>h_nodegroups :=
                               AList.update name (length (NodeGroup_objs s)) (h_nodegroups h)\<rparr>],
                   nodegroups := AList.update name (length (NodeGroup_objs s)) (nodegroups s)\<rparr>)"
    (is "linked ?s'")
proof -
  let ?n = "length (NodeGroup_objs s)"
  let ?h' = "h\<lparr>h_nodegroups := AList.update name ?n (h_nodegroups h)\<rparr>"
  from l have k: "keys_ok s" and a: "ng_linked s" and b: "host_linked s"
    and c: "node_linked s" and d: "owner_linked s"
    by (simp_all add: linked_def)
  from obj have hr: "hr < length (Host_objs s)" and h: "Host_objs s ! hr = h"
    by (simp_all add: deref_Some_iff)
  have new_obj: "deref (NodeGroup_objs ?s') ?n = Some (new_NodeGroup hr name addr')"
    by (simp add: deref_append)
  have old_obj: "deref (NodeGroup_objs ?s') r = Some ng"
    if "deref (NodeGroup_objs s) r = Some ng" for r ng
    using that by (simp add: deref_append deref_Some_iff)
  have host_obj: "deref (Host_objs ?s') r = Some (if r = hr then ?h' else x)"
    if "deref (Host_objs s) r = Some x" for r x
    using that by (simp add: deref_update deref_Some_iff)
  have k': "keys_ok ?s'"
    using k by (simp add: keys_ok_def distinct_update)
  have a': "ng_linked ?s'"
    unfolding ng_linked_def
  proof (intro allI impI)
    fix n ngr assume hyp: "map_of (nodegroups ?s') n = Some ngr"
    show "\<exists>ng h hn. deref (NodeGroup_objs ?s') ngr = Some ng \<and>
           map_of (hosts ?s') hn = Some (ng_host ng) \<and>
           deref (Host_objs ?s') (ng_host ng) = Some h \<and>
           map_of (h_nodegroups h) n = Some ngr"
    proof (cases "n = name")
      case True
      with hyp have "ngr = ?n" by (simp add: update_conv')
      with True new_obj host host_obj [OF obj] show ?thesis
        by (auto simp: new_NodeGroup_def update_conv' intro!: exI [of _ host])
    next
      case False
      with hyp have "map_of (nodegroups s) n = Some ngr" by (simp add: update_conv')
      with a obtain ng h0 hn where ng: "deref (NodeGroup_objs s) ngr = Some ng"
        and hn: "map_of (hosts s) hn = Some (ng_host ng)"
        and h0: "deref (Host_objs s) (ng_host ng) = Some h0"
        and m: "map_of (h_nodegroups h0) n = Some ngr"
        unfolding ng_linked_def by blast
      have "map_of (h_nodegroups (if ng_host ng = hr then ?h' else h0)) n = Some ngr"
        using m h0 obj False by (auto simp: update_conv')
      with old_obj [OF ng] hn host_obj [OF h0] show ?thesis
        by (intro exI [of _ ng] exI [of _ "if ng_host ng = hr then ?h' else h0"] exI [of _ hn])
          simp
    qed
  qed
  have b': "host_linked ?s'"
    unfolding host_linked_def
  proof (intro allI impI)
    fix hn hr2 assume "map_of (hosts ?s') hn = Some hr2"
    then have "map_of (hosts s) hn = Some hr2" by simp
    with b obtain h2 where h2: "deref (Host_objs s) hr2 = Some h2"
      and dist: "distinct (map fst (h_nodegroups h2))"
      and ent: "\<And>n ngr. map_of (h_nodegroups h2) n = Some ngr \<Longrightarrow>
              map_of (nodegroups s) n = Some ngr \<and>
              (\<exists>ng. deref (NodeGroup_objs s) ngr = Some ng \<and> ng_host ng = hr2)"
      unfolding host_linked_def by blast
    let ?h2' = "if hr2 = hr then ?h' else h2"
    have 1: "deref (Host_objs ?s') hr2 = Some ?h2'"
      by (rule host_obj [OF h2])
    have 2: "distinct (map fst (h_nodegroups ?h2'))"
      using dist h2 obj by (auto simp: distinct_update)
    have 3: "map_of (nodegroups ?s') n = Some ngr \<and>
              (\<exists>ng. deref (NodeGroup_objs ?s') ngr = Some ng \<and> ng_host ng = hr2)"
      if m: "map_of (h_nodegroups ?h2') n = Some ngr" for n ngr
    proof (cases "hr2 = hr \<and> n = name")
      case True
      with m have "ngr = ?n" by (simp add: update_conv')
      with True new_obj show ?thesis
        by (simp add: update_conv' new_NodeGroup_def)
    next
      case False
      with m h2 obj have "map_of (h_nodegroups h2) n = Some ngr"
        by (auto simp: update_conv' split: if_splits)
      from ent [OF this] obtain ng where old: "map_of (nodegroups s) n = Some ngr"
        "deref (NodeGroup_objs s) ngr = Some ng" "ng_host ng = hr2"
        by blast
      from old(1) fresh have "n \<noteq> name" by auto
      with old old_obj [OF old(2)] show ?thesis
        by (auto simp: update_conv')
    qed
    from 1 2 3 show "\<exists>h. deref (Host_objs ?s') hr2 = Some h \<and>
           distinct (map fst (h_nodegroups h)) \<and>
           (\<forall>n ngr. map_of (h_nodegroups h) n = Some ngr \<longrightarrow>
              map_of (nodegroups ?s') n = Some ngr \<and>
              (\<exists>ng. deref (NodeGroup_objs ?s') ngr = Some ng \<and> ng_host ng = hr2))"
      by blast
  qed
  have c': "node_linked ?s'"
    unfolding node_linked_def
  proof (intro allI impI)
    fix n nr assume "map_of (nodes ?s') n = Some nr"
    then have "map_of (nodes s) n = Some nr" by simp
    with c obtain node ng gn where node: "deref (Node_objs s) nr = Some node"
      and gn: "map_of (nodegroups s) gn = Some (n_nodegroup node)"
      and ng: "deref (NodeGroup_objs s) (n_nodegroup node) = Some ng"
      and m: "map_of (ng_nodes ng) n = Some nr"
      unfolding node_linked_def by blast
    from gn fresh have "gn \<noteq> name" by auto
    with gn have "map_of (nodegroups ?s') gn = Some (n_nodegroup node)"
      by (simp add: update_conv')
    with node old_obj [OF ng] m
    show "\<exists>node ng gn. deref (Node_objs ?s') nr = Some node \<and>
           map_of (nodegroups ?s') gn = Some (n_nodegroup node) \<and>
           deref (NodeGroup_objs ?s') (n_nodegroup node) = Some ng \<and>
           map_of (ng_nodes ng) n = Some nr"
      by (intro exI [of _ node] exI [of _ ng] exI [of _ gn]) simp
  qed
  have d': "owner_linked ?s'"
    unfolding owner_linked_def
  proof (intro allI impI)
    fix gn ngr assume hyp: "map_of (nodegroups ?s') gn = Some ngr"
    show "\<exists>ng. deref (NodeGroup_objs ?s') ngr = Some ng \<and> distinct (map fst (ng_nodes ng)) \<and>
           (\<forall>n nr. map_of (ng_nodes ng) n = Some nr \<longrightarrow>
              map_of (nodes ?s') n = Some nr \<and>
              (\<exists>node. deref (Node_objs ?s') nr = Some node \<and> n_nodegroup node = ngr))"
    proof (cases "gn = name")
      case True
      with hyp have "ngr = ?n" by (simp add: update_conv')
      with new_obj show ?thesis
        by (simp add: new_NodeGroup_def)
    next
      case False
      with hyp have "map_of (nodegroups s) gn = Some ngr" by (simp add: update_conv')
      with d obtain ng where ng: "deref (NodeGroup_objs s) ngr = Some ng"
        and rest: "distinct (map fst (ng_nodes ng))"
          "\<forall>n nr. map_of (ng_nodes ng) n = Some nr \<longrightarrow>
              map_of (nodes s) n = Some nr \<and>
              (\<exists>node. deref (Node_objs s) nr = Some node \<and> n_nodegroup node = ngr)"
        unfolding owner_linked_def by blast
      with old_obj [OF ng] show ?thesis by simp
    qed
  qed
  from k' a' b' c' d' show ?thesis
    by (simp add: linked_def)
qed

subsection \<open>Registering and removing a Node\<close>

lemma linked_add_node:
  assumes l: "linked s"
    and fresh: "map_of (nodes s) name = None"
    and reg: "map_of (nodegroups s) nodegroup = Some ngr"
    and obj: "deref (NodeGroup_objs s) ngr = Some ng"
  shows "linked (s\<lparr>Node_objs := Node_objs s @ [new_Node ngr name classname],
                   nodes := AList.update name (length (Node_objs s)) (nodes s),
                   NodeGroup_objs := (NodeGroup_objs s)
                     [ngr := ng\<lparr>ng_nodes :=
                               AList.update name (length (Node_objs s)) (ng_nodes ng)\<rparr>]\<rparr>)"
    (is "linked ?s'")
proof -
  let ?k = "length (Node_objs s)"
  let ?ng' = "ng\<lparr>ng_nodes := AList.update name ?k (ng_nodes ng)\<rparr>"
  from l have k: "keys_ok s" and a: "ng_linked s" and b: "host_linked s"
    and c: "node_linked s" and d: "owner_linked s"
    by (simp_all add: linked_def)
  have new_obj: "deref (Node_objs ?s') ?k = Some (new_Node ngr name classname)"
    by (simp add: deref_append)
  have old_obj: "deref (Node_objs ?s') r = Some x" if "deref (Node_objs s) r = Some x" for r x
    using that by (simp add: deref_append deref_Some_iff)
  have ng_obj: "deref (NodeGroup_objs ?s') r = Some (if r = ngr then ?ng' else x)"
    if "deref (NodeGroup_objs s) r = Some x" for r x
    using that by (simp add: deref_update deref_Some_iff)
  have ng_host: "ng_host (if r = ngr then ?ng' else x) = ng_host x"
    if "deref (NodeGroup_objs s) r = Some x" for r x
    using that obj by auto
  have k': "keys_ok ?s'"
    using k by (simp add: keys_ok_def distinct_update)
  have a': "ng_linked ?s'"
    unfolding ng_linked_def
  proof (intro allI impI)
    fix n r assume "map_of (nodegroups ?s') n = Some r"
    then have "map_of (nodegroups s) n = Some r" by simp
    with a obtain ng0 h hn where ng0: "deref (NodeGroup_objs s) r = Some ng0"
      and rest: "map_of (hosts s) hn = Some (ng_host ng0)"
        "deref (Host_objs s) (ng_host ng0) = Some h"
        "map_of (h_nodegroups h) n = Some r"
      unfolding ng_linked_def by blast
    let ?x = "if r = ngr then ?ng' else ng0"
    from rest ng_host [OF ng0] have "map_of (hosts ?s') hn = Some (ng_host ?x)"
      "deref (Host_objs ?s') (ng_host ?x) = Some h"
      by simp_all
    with ng_obj [OF ng0] rest(3)
    show "\<exists>ng h hn. deref (NodeGroup_objs ?s') r = Some ng \<and>
           map_of (hosts ?s') hn = Some (ng_host ng) \<and>
           deref (Host_objs ?s') (ng_host ng) = Some h \<and>
           map_of (h_nodegroups h) n = Some r"
      by blast
  qed
  have b': "host_linked ?s'"
    unfolding host_linked_def
  proof (intro allI impI)
    fix hn hr assume "map_of (hosts ?s') hn = Some hr"
    then have "map_of (hosts s) hn = Some hr" by simp
    with b obtain h where h: "deref (Host_objs s) hr = Some h"
      and dist: "distinct (map fst (h_nodegroups h))"
      and ent: "\<And>n r. map_of (h_nodegroups h) n = Some r \<Longrightarrow>
              map_of (nodegroups s) n = Some r \<and>
              (\<exists>x. deref (NodeGroup_objs s) r = Some x \<and> ng_host x = hr)"
      unfolding host_linked_def by blast
    have "map_of (nodegroups ?s') n = Some r \<and>
              (\<exists>x. deref (NodeGroup_objs ?s') r = Some x \<and> ng_host x = hr)"
      if "map_of (h_nodegroups h) n = Some r" for n r
    proof -
      from ent [OF that] obtain x where x: "map_of (nodegroups s) n = Some r"
        "deref (NodeGroup_objs s) r = Some x" "ng_host x = hr"
        by blast
      from ng_obj [OF x(2)] ng_host [OF x(2)] x(1,3) show ?thesis
        by (intro conjI exI [of _ "if r = ngr then ?ng' else x"]) simp_all
    qed
    with h dist show "\<exists>h. deref (Host_objs ?s') hr = Some h \<and>
           distinct (map fst (h_nodegroups h)) \<and>
           (\<forall>n r. map_of (h_nodegroups h) n = Some r \<longrightarrow>
              map_of (nodegroups ?s') n = Some r \<and>
              (\<exists>x. deref (NodeGroup_objs ?s') r = Some x \<and> ng_host x = hr))"
      by (intro exI [of _ h]) simp
  qed
  have c': "node_linked ?s'"
    unfolding node_linked_def
  proof (intro allI impI)
    fix n nr assume hyp: "map_of (nodes ?s') n = Some nr"
    show "\<exists>node x gn. deref (Node_objs ?s') nr = Some node \<and>
           map_of (nodegroups ?s') gn = Some (n_nodegroup node) \<and>
           deref (NodeGroup_objs ?s') (n_nodegroup node) = Some x \<and>
           map_of (ng_nodes x) n = Some nr"
    proof (cases "n = name")
      case True
      with hyp have nr: "nr = ?k" by (simp add: update_conv')
      have "map_of (nodegroups ?s') nodegroup = Some (n_nodegroup (new_Node ngr name classname))"
        using reg by (simp add: new_Node_def)
      moreover have "deref (NodeGroup_objs ?s') (n_nodegroup (new_Node ngr name classname))
          = Some ?ng'"
        using ng_obj [OF obj] by (simp add: new_Node_def)
      moreover have "map_of (ng_nodes ?ng') n = Some nr"
        using True nr by (simp add: update_conv')
      ultimately show ?thesis
        using new_obj nr by blast
    next
      case False
      with hyp have "map_of (nodes s) n = Some nr" by (simp add: update_conv')
      with c obtain node x gn where node: "deref (Node_objs s) nr = Some node"
        and gn: "map_of (nodegroups s) gn = Some (n_nodegroup node)"
        and x: "deref (NodeGroup_objs s) (n_nodegroup node) = Some x"
        and m: "map_of (ng_nodes x) n = Some nr"
        unfolding node_linked_def by blast
      have "map_of (ng_nodes (if n_nodegroup node = ngr then ?ng' else x)) n = Some nr"
        using m x obj False by (auto simp: update_conv')
      with old_obj [OF node] gn ng_obj [OF x] show ?thesis
        by (intro exI [of _ node] exI [of _ "if n_nodegroup node = ngr then ?ng' else x"]
            exI [of _ gn]) simp
    qed
  qed
  have d': "owner_linked ?s'"
    unfolding owner_linked_def
  proof (intro allI impI)
    fix gn r assume "map_of (nodegroups ?s') gn = Some r"
    then have "map_of (nodegroups s) gn = Some r" by simp
    with d obtain x where x: "deref (NodeGroup_objs s) r = Some x"
      and dist: "distinct (map fst (ng_nodes x))"
      and ent: "\<And>n nr. map_of (ng_nodes x) n = Some nr \<Longrightarrow>
              map_of (nodes s) n = Some nr \<and>
              (\<exists>node. deref (Node_objs s) nr = Some node \<and> n_nodegroup node = r)"
      unfolding owner_linked_def by blast
    let ?x' = "if r = ngr then ?ng' else x"
    have 1: "deref (NodeGroup_objs ?s') r = Some ?x'"
      by (rule ng_obj [OF x])
    have 2: "distinct (map fst (ng_nodes ?x'))"
      using dist x obj by (auto simp: distinct_update)
    have 3: "map_of (nodes ?s') n = Some nr \<and>
              (\<exists>node. deref (Node_objs ?s') nr = Some node \<and> n_nodegroup node = r)"
      if m: "map_of (ng_nodes ?x') n = Some nr" for n nr
    proof (cases "r = ngr \<and> n = name")
      case True
      with m have "nr = ?k" by (simp add: update_conv')
      with True new_obj show ?thesis
        by (simp add: update_conv' new_Node_def)
    next
      case False
      with m x obj have "map_of (ng_nodes x) n = Some nr"
        by (auto simp: update_conv' split: if_splits)
      from ent [OF this] obtain node where old: "map_of (nodes s) n = Some nr"
        "deref (Node_objs s) nr = Some node" "n_nodegroup node = r"
        by blast
      from old(1) fresh have "n \<noteq> name" by auto
      with old old_obj [OF old(2)] show ?thesis
        by (auto simp: update_conv')
    qed
    from 1 2 3 show "\<exists>x. deref (NodeGroup_objs ?s') r = Some x \<and>
           distinct (map fst (ng_nodes x)) \<and>
           (\<forall>n nr. map_of (ng_nodes x) n = Some nr \<longrightarrow>
              map_of (nodes ?s') n = Some nr \<and>
              (\<exists>node. deref (Node_objs ?s') nr = Some node \<and> n_nodegroup node = r))"
      by blast
  qed
  from k' a' b' c' d' show ?thesis
    by (simp add: linked_def)
qed

lemma linked_node_owned:
  assumes "linked s" "map_of (nodes s) name = Some nr" "deref (Node_objs s) nr = Some node"
    "deref (NodeGroup_objs s) (n_nodegroup node) = Some ng"
  shows "map_of (ng_nodes ng) name = Some nr"
  using assms unfolding linked_def node_linked_def by fastforce

lemma linked_remove_node:
  assumes l: "linked s"
    and reg: "map_of (nodes s) name = Some nr"
    and nobj: "deref (Node_objs s) nr = Some node"
    and obj: "deref (NodeGroup_objs s) (n_nodegroup node) = Some ng"
  shows "linked (s\<lparr>nodes := AList.delete name (nodes s),
                   NodeGroup_objs := (NodeGroup_objs s)
                     [n_nodegroup node := ng\<lparr>ng_nodes := AList.delete name (ng_nodes ng)\<rparr>]\<rparr>)"
    (is "linked ?s'")
proof -
  let ?ngr = "n_nodegroup node"
  let ?ng' = "ng\<lparr>ng_nodes := AList.delete name (ng_nodes ng)\<rparr>"
  from l have k: "keys_ok s" and a: "ng_linked s" and b: "host_linked s"
    and c: "node_linked s" and d: "owner_linked s"
    by (simp_all add: linked_def)
  have ng_obj: "deref (NodeGroup_objs ?s') r = Some (if r = ?ngr then ?ng' else x)"
    if "deref (NodeGroup_objs s) r = Some x" for r x
    using that by (simp add: deref_update deref_Some_iff)
  have ng_host: "ng_host (if r = ?ngr then ?ng' else x) = ng_host x"
    if "deref (NodeGroup_objs s) r = Some x" for r x
    using that obj by auto
  have k': "keys_ok ?s'"
    using k by (simp add: keys_ok_def distinct_delete)
  have a': "ng_linked ?s'"
    unfolding ng_linked_def
  proof (intro allI impI)
    fix n r assume "map_of (nodegroups ?s') n = Some r"
    then have "map_of (nodegroups s) n = Some r" by simp
    with a obtain ng0 h hn where ng0: "deref (NodeGroup_objs s) r = Some ng0"
      and rest: "map_of (hosts s) hn = Some (ng_host ng0)"
        "deref (Host_objs s) (ng_host ng0) = Some h"
        "map_of (h_nodegroups h) n = Some r"
      unfolding ng_linked_def by blast
    let ?x = "if r = ?ngr then ?ng' else ng0"
    from rest ng_host [OF ng0] have "map_of (hosts ?s') hn = Some (ng_host ?x)"
      "deref (Host_objs ?s') (ng_host ?x) = Some h"
      by simp_all
    with ng_obj [OF ng0] rest(3)
    show "\<exists>ng h hn. deref (NodeGroup_objs ?s') r = Some ng \<and>
           map_of (hosts ?s') hn = Some (ng_host ng) \<and>
           deref (Host_objs ?s') (ng_host ng) = Some h \<and>
           map_of (h_nodegroups h) n = Some r"
      by blast
  qed
  have b': "host_linked ?s'"
    unfolding host_linked_def
  proof (intro allI impI)
    fix hn hr assume "map_of (hosts ?s') hn = Some hr"
    then have "map_of (hosts s) hn = Some hr" by simp
    with b obtain h where h: "deref (Host_objs s) hr = Some h"
      and dist: "distinct (map fst (h_nodegroups h))"
      and ent: "\<And>n r. map_of (h_nodegroups h) n = Some r \<Longrightarrow>
              map_of (nodegroups s) n = Some r \<and>
              (\<exists>x. deref (NodeGroup_objs s) r = Some x \<and> ng_host x = hr)"
      unfolding host_linked_def by blast
    have "map_of (nodegroups ?s') n = Some r \<and>
              (\<exists>x. deref (NodeGroup_objs ?s') r = Some x \<and> ng_host x = hr)"
      if "map_of (h_nodegroups h) n = Some r" for n r
    proof -
      from ent [OF that] obtain x where x: "map_of (nodegroups s) n = Some r"
        "deref (NodeGroup_objs s) r = Some x" "ng_host x = hr"
        by blast
      from ng_obj [OF x(2)] ng_host [OF x(2)] x(1,3) show ?thesis
        by (intro conjI exI [of _ "if r = ?ngr then ?ng' else x"]) simp_all
    qed
    with h dist show "\<exists>h. deref (Host_objs ?s') hr = Some h \<and>
           distinct (map fst (h_nodegroups h)) \<and>
           (\<forall>n r. map_of (h_nodegroups h) n = Some r \<longrightarrow>
              map_of (nodegroups ?s') n = Some r \<and>
              (\<exists>x. deref (NodeGroup_objs ?s') r = Some x \<and> ng_host x = hr))"
      by (intro exI [of _ h]) simp
  qed
  have c': "node_linked ?s'"
    unfolding node_linked_def
  proof (intro allI impI)
    fix n nr2 assume hyp: "map_of (nodes ?s') n = Some nr2"
    then have ne: "n \<noteq> name" and old: "map_of (nodes s) n = Some nr2"
      by (auto simp: delete_conv' split: if_splits)
    with c obtain node2 x gn where node2: "deref (Node_objs s) nr2 = Some node2"
      and gn: "map_of (nodegroups s) gn = Some (n_nodegroup node2)"
      and x: "deref (NodeGroup_objs s) (n_nodegroup node2) = Some x"
      and m: "map_of (ng_nodes x) n = Some nr2"
      unfolding node_linked_def by blast
    have "map_of (ng_nodes (if n_nodegroup node2 = ?ngr then ?ng' else x)) n = Some nr2"
      using m x obj ne by (auto simp: delete_conv')
    with node2 gn ng_obj [OF x]
    show "\<exists>node x gn. deref (Node_objs ?s') nr2 = Some node \<and>
           map_of (nodegroups ?s') gn = Some (n_nodegroup node) \<and>
           deref (NodeGroup_objs ?s') (n_nodegroup node) = Some x \<and>
           map_of (ng_nodes x) n = Some nr2"
      by (intro exI [of _ node2] exI [of _ "if n_nodegroup node2 = ?ngr then ?ng' else x"]
          exI [of _ gn]) simp
  qed
  have d': "owner_linked ?s'"
    unfolding owner_linked_def
  proof (intro allI impI)
    fix gn r assume "map_of (nodegroups ?s') gn = Some r"
    then have "map_of (nodegroups s) gn = Some r" by simp
    with d obtain x where x: "deref (NodeGroup_objs s) r = Some x"
      and dist: "distinct (map fst (ng_nodes x))"
      and ent: "\<And>n nr. map_of (ng_nodes x) n = Some nr \<Longrightarrow>
              map_of (nodes s) n = Some nr \<and>
              (\<exists>node. deref (Node_objs s) nr = Some node \<and> n_nodegroup node = r)"
      unfolding owner_linked_def by blast
    let ?x' = "if r = ?ngr then ?ng' else x"
    have 1: "deref (NodeGroup_objs ?s') r = Some ?x'"
      by (rule ng_obj [OF x])
    have 2: "distinct (map fst (ng_nodes ?x'))"
      using dist x obj by (auto simp: distinct_delete)
    have 3: "map_of (nodes ?s') n = Some nr2 \<and>
              (\<exists>node. deref (Node_objs ?s') nr2 = Some node \<and> n_nodegroup node = r)"
      if m: "map_of (ng_nodes ?x') n = Some nr2" for n nr2
    proof -
      from m x obj have m': "map_of (ng_nodes x) n = Some nr2"
        by (auto simp: delete_conv' split: if_splits)
      from ent [OF this] obtain node2 where old: "map_of (nodes s) n = Some nr2"
        "deref (Node_objs s) nr2 = Some node2" "n_nodegroup node2 = r"
        by blast
      have "n \<noteq> name"
      proof
        assume eq: "n = name"
        with old(1) reg have "nr2 = nr" by simp
        with old(2) nobj have "node2 = node" by simp
        with old(3) have "r = ?ngr" by simp
        with m eq show False by (simp add: delete_conv')
      qed
      with old show ?thesis
        by (auto simp: delete_conv')
    qed
    from 1 2 3 show "\<exists>x. deref (NodeGroup_objs ?s') r = Some x \<and>
           distinct (map fst (ng_nodes x)) \<and>
           (\<forall>n nr. map_of (ng_nodes x) n = Some nr \<longrightarrow>
              map_of (nodes ?s') n = Some nr \<and>
              (\<exists>node. deref (Node_objs ?s') nr = Some node \<and> n_nodegroup node = r))"
      by blast
  qed
  from k' a' b' c' d' show ?thesis
    by (simp add: linked_def)
qed

subsection \<open>Every operation, completing or raising\<close>

lemma linked_create_nodegroup:
  assumes "linked s"
  shows "linked (snd (create_nodegroup e s host name))"
proof (cases "map_of (nodegroups s) name = None")
  case False
  with assms show ?thesis by (auto simp: create_nodegroup_def)
next
  case fresh: True
  show ?thesis
  proof (cases "map_of (hosts s) host")
    case None
    with fresh assms show ?thesis by (simp add: create_nodegroup_def)
  next
    case (Some hr)
    show ?thesis
    proof (cases "deref (Host_objs s) hr")
      case None
      with fresh Some assms show ?thesis by (simp add: create_nodegroup_def)
    next
      case obj: (Some h)
      let ?c = "Call (h_client h) ''create_nodegroup''
                  [name, ''tcp://'' @ h_rpc_hostname h @ '':*''] []"
      let ?s0 = "s\<lparr>rpc_log := rpc_log s @ [?c]\<rparr>"
      from assms have l0: "linked ?s0"
        by (simp add: linked_fields)
      show ?thesis
      proof (cases "host_reply e (rpc_log s) ?c")
        case (Inl msg)
        with fresh Some obj l0 show ?thesis
          by (simp add: create_nodegroup_def)
      next
        case (Inr p)
        obtain uu addr' where p: "p = (uu, addr')" by (cases p)
        from linked_add_nodegroup [of ?s0 name host hr h addr'] l0 fresh Some obj
        have "linked (?s0\<lparr>NodeGroup_objs := NodeGroup_objs s @ [new_NodeGroup hr name addr'],
                   Host_objs := (Host_objs s)
                     [hr := h\<lparr>h_nodegroups :=
                               AList.update name (length (NodeGroup_objs s)) (h_nodegroups h)\<rparr>],
                   nodegroups := AList.update name (length (NodeGroup_objs s)) (nodegroups s)\<rparr>)"
          by simp
        with fresh Some obj Inr p show ?thesis
          by (simp add: create_nodegroup_def Let_def new_NodeGroup_def)
      qed
    qed
  qed
qed

lemma linked_create_node:
  assumes "linked s"
  shows "linked (snd (create_node e s nodegroup name classname kw))"
proof (cases "map_of (nodes s) name = None")
  case False
  with assms show ?thesis by (auto simp: create_node_def)
next
  case fresh: True
  show ?thesis
  proof (cases "map_of (nodegroups s) nodegroup")
    case None
    with fresh assms show ?thesis by (simp add: create_node_def)
  next
    case (Some ngr)
    show ?thesis
    proof (cases "deref (NodeGroup_objs s) ngr")
      case None
      with fresh Some assms show ?thesis by (simp add: create_node_def)
    next
      case obj: (Some ng)
      let ?c = "Call (ng_client ng) ''create_node'' [name, classname] kw"
      let ?s0 = "s\<lparr>rpc_log := rpc_log s @ [?c]\<rparr>"
      from assms have l0: "linked ?s0"
        by (simp add: linked_fields)
      show ?thesis
      proof (cases "reply e (rpc_log s) ?c")
        case (Inl msg)
        with fresh Some obj l0 show ?thesis
          by (simp add: create_node_def rpc_def)
      next
        case (Inr v)
        from linked_add_node [of ?s0 name nodegroup ngr ng classname] l0 fresh Some obj
        have "linked (?s0\<lparr>Node_objs := Node_objs s @ [new_Node ngr name classname],
                   nodes := AList.update name (length (Node_objs s)) (nodes s),
                   NodeGroup_objs := (NodeGroup_objs s)
                     [ngr := ng\<lparr>ng_nodes :=
                               AList.update name (length (Node_objs s)) (ng_nodes ng)\<rparr>]\<rparr>)"
          by simp
        with fresh Some obj Inr show ?thesis
          by (simp add: create_node_def rpc_def Let_def)
      qed
    qed
  qed
qed

lemma linked_delete_node:
  assumes "linked s"
  shows "linked (snd (delete_node e s name))"
proof (cases "map_of (nodes s) name")
  case None
  with assms show ?thesis by (simp add: delete_node_def)
next
  case (Some nr)
  show ?thesis
  proof (cases "deref (Node_objs s) nr")
    case None
    with Some assms show ?thesis by (simp add: delete_node_def)
  next
    case nobj: (Some node)
    show ?thesis
    proof (cases "deref (NodeGroup_objs s) (n_nodegroup node)")
      case None
      with Some nobj assms show ?thesis by (simp add: delete_node_def)
    next
      case obj: (Some ng)
      let ?c = "Call (ng_client ng) ''delete_node'' [name] []"
      let ?s0 = "s\<lparr>rpc_log := rpc_log s @ [?c]\<rparr>"
      from assms have l0: "linked ?s0"
        by (simp add: linked_fields)
      from linked_node_owned [OF assms Some nobj obj]
      have owned: "map_of (ng_nodes ng) name \<noteq> None"
        by simp
      show ?thesis
      proof (cases "reply e (rpc_log s) ?c")
        case (Inl msg)
        with Some nobj obj l0 show ?thesis
          by (simp add: delete_node_def rpc_def)
      next
        case (Inr v)
        from linked_remove_node [of ?s0 name nr node ng] l0 Some nobj obj
        have "linked (?s0\<lparr>nodes := AList.delete name (nodes s),
                   NodeGroup_objs := (NodeGroup_objs s)
                     [n_nodegroup node :=
                        ng\<lparr>ng_nodes := AList.delete name (ng_nodes ng)\<rparr>]\<rparr>)"
          by simp
        with Some nobj obj Inr owned show ?thesis
          by (auto simp: delete_node_def rpc_def Let_def)
      qed
    qed
  qed
qed

lemma linked_default_host:
  assumes "linked s"
  shows "linked (snd (default_host e s))"
proof (cases "priv_default_host s")
  case (Some proc)
  with assms show ?thesis by (simp add: default_host_def)
next
  case None
  show ?thesis
  proof (cases "launch e (spawned s) ''default-host''
                  (fst (str_rpartition (priv_addr s) '':'') @ '':*'')")
    case (Inl msg)
    with None assms show ?thesis by (simp add: default_host_def)
  next
    case (Inr proc)
    from assms have "linked (s\<lparr>spawned := spawned s @ [proc], priv_default_host := Some proc\<rparr>)"
      by (simp add: linked_fields)
    from linked_connect_host [OF this] None Inr show ?thesis
      by (simp add: default_host_def Let_def)
  qed
qed

lemma linked_log_only:
  "linked s \<Longrightarrow> s' = s\<lparr>rpc_log := l\<rparr> \<Longrightarrow> linked s'"
  by (simp add: linked_fields)

lemma linked_close_host: "linked s \<Longrightarrow> linked (snd (close_host e s name))"
  by (auto simp: close_host_def rpc_def linked_fields split: option.splits sum.splits)

lemma linked_control_node: "linked s \<Longrightarrow> linked (snd (control_node e s name m kw))"
  by (auto simp: control_node_def rpc_def linked_fields split: option.splits sum.splits)

lemma linked_broadcast:
  "linked s \<Longrightarrow> linked (snd (start_all_nodes e s))"
  "linked s \<Longrightarrow> linked (snd (stop_all_nodes e s))"
  using call_all_snd [of e "''start_all_nodes''" s "map snd (nodegroups s)"]
    call_all_snd [of e "''stop_all_nodes''" s "map snd (nodegroups s)"]
  by (auto simp: start_all_nodes_def stop_all_nodes_def linked_fields)

lemma linked_exec: "linked s \<Longrightarrow> linked (snd (exec e s op))"
  by (cases op)
    (simp_all add: returning_snd linked_connect_host disconnect_host_state linked_default_host
      linked_close_host close_def linked_fields linked_create_nodegroup linked_create_node
      linked_control_node linked_delete_node suggest_nodegroup_name_def suggest_node_name_def
      linked_broadcast split: option.splits)

lemma linked_run: "linked s \<Longrightarrow> linked (snd (run s reqs))"
proof (induction reqs arbitrary: s)
  case Nil
  then show ?case by simp
next
  case (Cons req reqs)
  obtain e op where req: "req = (e, op)" by (cases req)
  from Cons.prems have "linked (snd (exec e s op))"
    by (rule linked_exec)
  then have "linked (snd (run (snd (exec e s op)) reqs))"
    by (rule Cons.IH)
  then show ?case
    unfolding req run_snd_Cons .
qed

text \<open>
  C10: in every state reached from a new Manager by any sequence of requests, against
  any behaviour of the outside world and whether each request completes or raises, the
  dictionaries have unique keys and the global and per-owner registries agree in both
  directions: the entries of the global \<open>nodegroups\<close> are exactly, name by name, the entries
  of the \<open>nodegroups\<close> of their owning (registered) Hosts, and the entries of the global
  \<open>nodes\<close> are exactly, name by name, the entries of the \<open>nodes\<close> of their owning
  (registered) Nodegroups.
\<close>

theorem registry_consistent:
  "dicts_ok (snd (run (init addr) reqs)) \<and> consistent (snd (run (init addr) reqs))"
  by (rule linked_consistent [OF linked_run [OF linked_init]])

text \<open>
  A run with a request that fails remotely and one that raises TypeError, and the state
  it reaches.
\<close>

lemma st_node_reached:
  "snd (run (init ''tcp://127.0.0.1:4000'')
          [(env_ok, Connect_host ''h1'' ''tcp://127.0.0.1:5000''),
           (env_ok, Create_nodegroup ''h1'' ''ngA''),
           (env_ok, Create_node ''ngA'' ''nodeA'' ''Acquirer'' []),
           (env_down, Create_node ''ngA'' ''nodeB'' ''Acquirer'' []),
           (env_ok, Disconnect_host ''h1'')]) =
   st_node\<lparr>rpc_log := rpc_log st_node @
     [Call (RPCClient ''ngA'' ''tcp://127.0.0.1:5001'') ''create_node''
        [''nodeB'', ''Acquirer''] []]\<rparr>"
proof -
  have "snd (create_node env_down st_node ''ngA'' ''nodeB'' ''Acquirer'' []) =
      st_node\<lparr>rpc_log := rpc_log st_node @
        [Call (RPCClient ''ngA'' ''tcp://127.0.0.1:5001'') ''create_node''
           [''nodeB'', ''Acquirer''] []]\<rparr>"
    by (simp add: st_node_eq create_node_def deref_def env_down_def rpc_def)
  then show ?thesis
    unfolding run_snd_Cons
    by (simp add: st_node_def st_ng_def st_host_def returning_snd disconnect_host_state)
qed

theorem registry_consistent_witness:
  "dicts_ok (st_node\<lparr>rpc_log := rpc_log st_node @
     [Call (RPCClient ''ngA'' ''tcp://127.0.0.1:5001'') ''create_node''
        [''nodeB'', ''Acquirer''] []]\<rparr>) \<and>
   consistent (st_node\<lparr>rpc_log := rpc_log st_node @
     [Call (RPCClient ''ngA'' ''tcp://127.0.0.1:5001'') ''create_node''
        [''nodeB'', ''Acquirer''] []]\<rparr>)"
  using registry_consistent [of "''tcp://127.0.0.1:4000''"
      "[(env_ok, Connect_host ''h1'' ''tcp://127.0.0.1:5000''),
        (env_ok, Create_nodegroup ''h1'' ''ngA''),
        (env_ok, Create_node ''ngA'' ''nodeA'' ''Acquirer'' []),
        (env_down, Create_node ''ngA'' ''nodeB'' ''Acquirer'' []),
        (env_ok, Disconnect_host ''h1'')]"]
  unfolding st_node_reached .

lemma consistent_example: "consistent st_node \<and> dicts_ok st_node"
  by (simp add: consistent_def dicts_ok_def st_node_eq deref_def)

text \<open>In every state of a run, each registered Nodegroup has its object in the store.\<close>

lemma run_store_valid:
  "ngr \<in> snd ` set (nodegroups (snd (run (init addr) reqs))) \<Longrightarrow>
   ngr < length (NodeGroup_objs (snd (run (init addr) reqs)))"
proof -
  let ?s = "snd (run (init addr) reqs)"
  assume "ngr \<in> snd ` set (nodegroups ?s)"
  then obtain gn where gn: "(gn, ngr) \<in> set (nodegroups ?s)"
    by auto
  have l: "linked ?s"
    by (rule linked_run [OF linked_init])
  then have "distinct (map fst (nodegroups ?s))"
    by (simp add: linked_def keys_ok_def)
  with gn have "map_of (nodegroups ?s) gn = Some ngr"
    by simp
  with l obtain ng where "deref (NodeGroup_objs ?s) ngr = Some ng"
    unfolding linked_def owner_linked_def by blast
  then show ?thesis
    by (rule deref_valid)
qed

end
